theory Spec2Isabelle
  imports Complex_Main "HOL-Library.Sublist"
begin

section \<open>Data model\<close>

text \<open>
  The three section labels written by the ingestion code (the strings
  \<^verbatim>\<open>"beginning"\<close>, \<^verbatim>\<open>"middle"\<close>, \<^verbatim>\<open>"end"\<close>, also the members of the
  \<^verbatim>\<open>z.enum\<close> of \<^verbatim>\<open>searchSchema\<close>).
\<close>

datatype section_label = Beginning | Middle | End

text \<open>
  A LangChain \<^verbatim>\<open>Document\<close>: \<^verbatim>\<open>pageContent\<close> and \<^verbatim>\<open>metadata\<close>. The loader sets
  \<^verbatim>\<open>metadata.source\<close>; \<^verbatim>\<open>metadata.section\<close> is absent (\<open>None\<close>) until the
  labelling loop of \<^verbatim>\<open>main\<close> assigns it.
\<close>

record metadata =
  source :: string
  doc_section :: "section_label option"

record document =
  pageContent :: string
  metadata :: metadata

section \<open>Ingestion: section labels (pipeline.ts, lines 38-49)\<close>

text \<open>
  \<^verbatim>\<open>const third = Math.floor(totalDocuments / 3);\<close>
  The count is an array length, so the quotient is the natural-number quotient.
\<close>

definition third :: "nat \<Rightarrow> nat" where
  "third totalDocuments = totalDocuments div 3"

text \<open>The body of the \<^verbatim>\<open>forEach\<close> callback: the label chosen for index \<open>i\<close>.\<close>

definition section_of :: "nat \<Rightarrow> nat \<Rightarrow> section_label" where
  "section_of i totalDocuments =
     (if i < third totalDocuments then Beginning
      else if i < third totalDocuments * 2 then Middle
      else End)"

definition set_section :: "section_label \<Rightarrow> document \<Rightarrow> document" where
  "set_section s d = d\<lparr>metadata := (metadata d)\<lparr>doc_section := Some s\<rparr>\<rparr>"

text \<open>
  \<^verbatim>\<open>allSplits.forEach((document, i) => { ... })\<close>: every document of the array is
  visited once with its index, and its \<^verbatim>\<open>metadata.section\<close> is overwritten.
\<close>

definition label_sections :: "document list \<Rightarrow> document list" where
  "label_sections allSplits =
     map (\<lambda>(i, d). set_section (section_of i (length allSplits)) d)
       (enumerate 0 allSplits)"

text \<open>The label a document carries, as the retrieval filter reads it.\<close>

definition label_of :: "document \<Rightarrow> section_label option" where
  "label_of d = doc_section (metadata d)"

definition count_label :: "section_label \<Rightarrow> document list \<Rightarrow> nat" where
  "count_label s ds = length (filter (\<lambda>d. label_of d = Some s) ds)"

section \<open>Errors\<close>

text \<open>
  The source has no \<^verbatim>\<open>try\<close>/\<^verbatim>\<open>catch\<close>: whatever an awaited call throws leaves
  the function that awaited it. The exceptions are values here.
\<close>

datatype error =
    ProviderError string
  | SchemaError string
  | TypeError string
  | ConfigurationError string
  | GraphError string

section \<open>Messages\<close>

datatype jvalue = JString string | JNumber int | JBool bool | JNull

text \<open>A JavaScript object with string keys, looked up with \<open>map_of\<close>.\<close>

type_synonym jobject = "(string \<times> jvalue) list"

record tool_call =
  tc_name :: string
  tc_args :: jobject
  tc_id :: string

text \<open>
  The message classes the source tests with \<^verbatim>\<open>instanceof\<close>. The field
  \<^verbatim>\<open>tool_calls\<close> of an AI message is optional in its type (the source reads it
  with \<^verbatim>\<open>?.\<close>), so it is an option here. A tool message carries the text the
  tool returned and, for the response format \<^verbatim>\<open>content_and_artifact\<close>, the
  artifact.
\<close>

datatype message =
    HumanMessage (content: string)
  | SystemMessage (content: string)
  | AIMessage (content: string) (tool_calls: "tool_call list option")
  | ToolMessage (content: string) (tool_call_id: string) (artifact: "document list")

section \<open>External collaborators\<close>

text \<open>
  Modelled from the spec: the chat model collaborator, a remote service with
  \<^verbatim>\<open>invoke(messages)\<close>, \<^verbatim>\<open>invokeStructured(text, schema)\<close> (here the object
  the model produced, before it is validated) and
  \<^verbatim>\<open>invokeWithTools(messages, toolDeclarations)\<close>. Its answers are parameters,
  and each call may fail.
\<close>

record chat_model =
  invoke :: "message list \<Rightarrow> error + message"
  invokeStructured :: "string \<Rightarrow> error + jobject"
  invokeWithTools :: "message list \<Rightarrow> error + message"

text \<open>
  Modelled from the spec: the embedding provider collaborator, \<^verbatim>\<open>embed(text)\<close>
  and \<^verbatim>\<open>embedBatch(texts)\<close>, a remote service whose calls may fail. The type
  of vectors is a parameter.
\<close>

record 'v embedding_provider =
  embed :: "string \<Rightarrow> error + 'v"
  embedBatch :: "string list \<Rightarrow> error + 'v list"

text \<open>
  Modelled from the spec: the vector index (\<^verbatim>\<open>MemoryVectorStore\<close> of the
  LangChain library, not part of this repository). It stores (vector, text,
  metadata) tuples and supports \<^verbatim>\<open>search(queryText, k, optionalFilter)\<close>,
  returning an ordered sequence of at most \<open>k\<close> chunks by descending similarity
  of the embedded query to the stored vectors; the filter is applied during
  the search, so fewer than \<open>k\<close> results may return. The similarity is a
  floating-point computation of the library and is a parameter here.
\<close>

record 'v vector_index =
  provider :: "'v embedding_provider"
  similarity :: "'v \<Rightarrow> 'v \<Rightarrow> real"
  memoryVectors :: "(document \<times> 'v) list"

text \<open>
  Modelled from the spec: \<^verbatim>\<open>search(queryText, k, optionalFilter)\<close> of the vector
  index. The query is embedded, which may fail; the stored tuples that pass the
  filter are ranked by descending similarity and the first \<open>k\<close> are returned.
\<close>

definition similaritySearch ::
  "'v vector_index \<Rightarrow> string \<Rightarrow> nat \<Rightarrow> (document \<Rightarrow> bool) option \<Rightarrow> error + document list" where
  "similaritySearch vs queryText k optionalFilter =
     (case embed (provider vs) queryText of
        Inl e \<Rightarrow> Inl e
      | Inr qv \<Rightarrow>
          (let candidates =
                 (case optionalFilter of
                    None \<Rightarrow> memoryVectors vs
                  | Some f \<Rightarrow> filter (\<lambda>(d, v). f d) (memoryVectors vs));
               ranked = sort_key (\<lambda>(d, v). - similarity vs qv v) candidates
           in Inr (map fst (take k ranked))))"

text \<open>
  Modelled from the spec: \<^verbatim>\<open>add(chunks)\<close> of the vector index embeds each chunk's
  text and stores vector, text and metadata.
\<close>

definition addDocuments :: "'v vector_index \<Rightarrow> document list \<Rightarrow> error + 'v vector_index" where
  "addDocuments vs docs =
     (case embedBatch (provider vs) (map pageContent docs) of
        Inl e \<Rightarrow> Inl e
      | Inr vectors \<Rightarrow> Inr (vs\<lparr>memoryVectors := memoryVectors vs @ zip docs vectors\<rparr>))"

text \<open>The chunks the index holds.\<close>

definition stored_chunks :: "'v vector_index \<Rightarrow> document list" where
  "stored_chunks vs = map fst (memoryVectors vs)"

section \<open>Query analysis (pipeline.ts, lines 24-29)\<close>

record search_spec =
  query :: string
  search_section :: section_label

text \<open>\<^verbatim>\<open>z.enum(["beginning", "middle", "end"])\<close>\<close>

definition section_enum :: "string \<Rightarrow> section_label option" where
  "section_enum s =
     (if s = ''beginning'' then Some Beginning
      else if s = ''middle'' then Some Middle
      else if s = ''end'' then Some End
      else None)"

text \<open>
  \<^verbatim>\<open>searchSchema = z.object({ query: z.string(), section: z.enum([...]) })\<close>:
  parsing an object against the schema gives the typed value or a validation
  error.
\<close>

definition searchSchema :: "jobject \<Rightarrow> error + search_spec" where
  "searchSchema obj =
     (case map_of obj ''query'' of
        Some (JString q) \<Rightarrow>
          (case map_of obj ''section'' of
             Some (JString s) \<Rightarrow>
               (case section_enum s of
                  Some sec \<Rightarrow> Inr \<lparr>query = q, search_section = sec\<rparr>
                | None \<Rightarrow> Inl (SchemaError ''section''))
           | _ \<Rightarrow> Inl (SchemaError ''section''))
      | _ \<Rightarrow> Inl (SchemaError ''query''))"

text \<open>
  \<^verbatim>\<open>structuredLlm = llm.withStructuredOutput(searchSchema)\<close>. Modelled from the
  spec: the library validates the object the model produced against the schema
  before returning it, and fails with the validation error otherwise.
\<close>

definition structuredLlm :: "chat_model \<Rightarrow> string \<Rightarrow> error + search_spec" where
  "structuredLlm llm text =
     (case invokeStructured llm text of
        Inl e \<Rightarrow> Inl e
      | Inr obj \<Rightarrow> searchSchema obj)"

section \<open>The query-analysed workflow (pipeline.ts, lines 54-114)\<close>

text \<open>
  \<^verbatim>\<open>StateAnnotation\<close>: the four channels of the workflow state. An invocation
  starts from \<^verbatim>\<open>{ question }\<close>; a channel no step has written yet is
  \<^verbatim>\<open>undefined\<close> (\<open>None\<close>). The channel named \<^verbatim>\<open>context\<close> in the source is
  \<open>context_docs\<close> here.
\<close>

record qa_state =
  question :: string
  search :: "search_spec option"
  context_docs :: "document list option"
  answer :: "string option"

text \<open>
  What a step returns: an object holding the channels it writes, such as
  \<^verbatim>\<open>{ search: result }\<close>. A channel absent from the object is \<open>None\<close>.
\<close>

record qa_update =
  upd_question :: "string option"
  upd_search :: "search_spec option"
  upd_context :: "document list option"
  upd_answer :: "string option"

definition no_update :: qa_update where
  "no_update = \<lparr>upd_question = None, upd_search = None, upd_context = None, upd_answer = None\<rparr>"

text \<open>
  Modelled from the spec: the graph library merges a step's state delta (a map
  of field to new value) into the state; a channel declared with
  \<^verbatim>\<open>Annotation<T>\<close> keeps the last value written.
\<close>

definition apply_update :: "qa_state \<Rightarrow> qa_update \<Rightarrow> qa_state" where
  "apply_update st u =
     \<lparr>question = (case upd_question u of None \<Rightarrow> question st | Some q \<Rightarrow> q),
      search = (case upd_search u of None \<Rightarrow> search st | Some s \<Rightarrow> Some s),
      context_docs = (case upd_context u of None \<Rightarrow> context_docs st | Some c \<Rightarrow> Some c),
      answer = (case upd_answer u of None \<Rightarrow> answer st | Some a \<Rightarrow> Some a)\<rparr>"

definition newline :: string where
  "newline = [CHR 0x0A]"

text \<open>\<^verbatim>\<open>Array.prototype.join\<close> on strings.\<close>

fun join :: "string \<Rightarrow> string list \<Rightarrow> string" where
  "join sep [] = []"
| "join sep [x] = x"
| "join sep (x # y # ys) = x @ sep @ join sep (y # ys)"

text \<open>
  \<^verbatim>\<open>promptTemplate = ChatPromptTemplate.fromMessages([["user", template]])\<close>
  invoked with the question and the joined chunk texts: one user message, the
  template with its two placeholders filled.
\<close>

definition promptTemplate :: "string \<Rightarrow> string \<Rightarrow> message list" where
  "promptTemplate question_text context_text =
     [HumanMessage
        (''Use the following pieces of context to answer the question at the end.'' @ newline @
         ''      If you don't know the answer, just say that you don't know, don't try to make up an answer.'' @ newline @
         ''      Use three sentences maximum and keep the answer as concise as possible.'' @ newline @
         ''      Always say \"thanks for asking!\" at the end of the answer.'' @ newline @
         newline @
         ''      '' @ context_text @ newline @
         newline @
         ''      Question: '' @ question_text @ newline @
         newline @
         ''      Helpful Answer:'')]"

text \<open>
  \<^verbatim>\<open>analyzeQuery\<close> (lines 73-76). The call is awaited without a handler, so
  its error is the step's error.
\<close>

definition analyzeQuery :: "chat_model \<Rightarrow> qa_state \<Rightarrow> error + qa_update" where
  "analyzeQuery llm state =
     (case structuredLlm llm (question state) of
        Inl e \<Rightarrow> Inl e
      | Inr result \<Rightarrow> Inr (no_update\<lparr>upd_search := Some result\<rparr>))"

text \<open>
  \<^verbatim>\<open>retrieve\<close> (lines 79-90). Reading \<^verbatim>\<open>state.search.section\<close> while the
  channel is still undefined throws a \<^verbatim>\<open>TypeError\<close>. The filter closure
  compares a document's \<^verbatim>\<open>metadata.section\<close> with the analysed section by
  \<^verbatim>\<open>===\<close>. The console output of the step is left out.
\<close>

definition retrieve :: "'v vector_index \<Rightarrow> qa_state \<Rightarrow> error + qa_update" where
  "retrieve vectorStore state =
     (case search state of
        None \<Rightarrow> Inl (TypeError ''state.search is undefined'')
      | Some s \<Rightarrow>
          (let filter' = (\<lambda>doc. doc_section (metadata doc) = Some (search_section s)) in
           case similaritySearch vectorStore (query s) 2 (Some filter') of
             Inl e \<Rightarrow> Inl e
           | Inr retrievedDocs \<Rightarrow> Inr (no_update\<lparr>upd_context := Some retrievedDocs\<rparr>)))"

text \<open>\<^verbatim>\<open>generate\<close> (lines 93-104).\<close>

definition generate :: "chat_model \<Rightarrow> qa_state \<Rightarrow> error + qa_update" where
  "generate llm state =
     (case context_docs state of
        None \<Rightarrow> Inl (TypeError ''state.context is undefined'')
      | Some docs \<Rightarrow>
          (let docsContent = join newline (map pageContent docs);
               messages = promptTemplate (question state) docsContent
           in case invoke llm messages of
                Inl e \<Rightarrow> Inl e
              | Inr response \<Rightarrow> Inr (no_update\<lparr>upd_answer := Some (content response)\<rparr>)))"

section \<open>The graph library\<close>

text \<open>
  Modelled from the spec: the workflow graph of the LangGraph library (not part
  of this repository). A graph has named steps, static edges and conditional
  edges with a string-keyed edge map. One invocation is a single pass: steps
  run one at a time in the order the edges give, each step's delta is merged
  into the state before the next step starts, and the first error of a step
  aborts the invocation; the library does not retry a step.
\<close>

record ('s, 'u) state_graph =
  nodes :: "(string \<times> ('s \<Rightarrow> error + 'u)) list"
  edges :: "(string \<times> string) list"
  conditional_edges :: "(string \<times> ('s \<Rightarrow> string) \<times> (string \<times> string) list) list"
  reducer :: "'s \<Rightarrow> 'u \<Rightarrow> 's"

text \<open>
  Modelled from the spec: the builder of the graph library. \<^verbatim>\<open>new StateGraph\<close>
  starts an empty graph over a state with the given way of merging updates;
  \<^verbatim>\<open>addNode\<close>, \<^verbatim>\<open>addEdge\<close> and \<^verbatim>\<open>addConditionalEdges\<close> record a step, a
  static edge, and a condition with its string-keyed edge map.
\<close>

definition StateGraph :: "('s \<Rightarrow> 'u \<Rightarrow> 's) \<Rightarrow> ('s, 'u) state_graph" where
  "StateGraph r = \<lparr>nodes = [], edges = [], conditional_edges = [], reducer = r\<rparr>"

definition addNode ::
  "('s, 'u) state_graph \<Rightarrow> string \<Rightarrow> ('s \<Rightarrow> error + 'u) \<Rightarrow> ('s, 'u) state_graph" where
  "addNode g name action = g\<lparr>nodes := nodes g @ [(name, action)]\<rparr>"

definition addEdge :: "('s, 'u) state_graph \<Rightarrow> string \<Rightarrow> string \<Rightarrow> ('s, 'u) state_graph" where
  "addEdge g a b = g\<lparr>edges := edges g @ [(a, b)]\<rparr>"

definition addConditionalEdges ::
  "('s, 'u) state_graph \<Rightarrow> string \<Rightarrow> ('s \<Rightarrow> string) \<Rightarrow> (string \<times> string) list \<Rightarrow>
   ('s, 'u) state_graph" where
  "addConditionalEdges g a condition pathMap =
     g\<lparr>conditional_edges := conditional_edges g @ [(a, condition, pathMap)]\<rparr>"

text \<open>
  Modelled from the spec: the steps that may follow step \<open>n\<close> in state \<open>st\<close> are
  the targets of its static edges, and for each conditional edge the target its
  edge map gives for the key the condition returns.
\<close>

definition successors :: "('s, 'u) state_graph \<Rightarrow> 's \<Rightarrow> string \<Rightarrow> string list" where
  "successors g st n =
     map snd (filter (\<lambda>(a, b). a = n) (edges g)) @
     concat (map (\<lambda>(a, condition, pathMap).
                    if a = n
                    then (case map_of pathMap (condition st) of Some m \<Rightarrow> [m] | None \<Rightarrow> [])
                    else [])
               (conditional_edges g))"

text \<open>The transition relation of a graph: some state lets \<open>m\<close> follow \<open>n\<close>.\<close>

definition transitions :: "('s, 'u) state_graph \<Rightarrow> (string \<times> string) set" where
  "transitions g = {(n, m). \<exists>st. m \<in> set (successors g st n)}"

datatype 's outcome = Finished 's | Aborted error | OutOfSteps

text \<open>
  Modelled from the spec: one invocation of a graph, from step \<open>n\<close> with a budget
  of steps. Each step runs to completion before the next begins, its delta is
  merged into the state, and the first error aborts the invocation. The result
  is the list of the steps that ran, in order, and how the invocation ended.
  The graphs of this repository give every step one successor; a step with
  none, or with several, is not run here and ends the run with an error.
\<close>

fun run_from ::
  "('s, 'u) state_graph \<Rightarrow> nat \<Rightarrow> string \<Rightarrow> 's \<Rightarrow> string list \<times> 's outcome" where
  "run_from g 0 n st =
     (if n = ''__end__'' then ([], Finished st) else ([], OutOfSteps))"
| "run_from g (Suc budget) n st =
     (if n = ''__end__'' then ([], Finished st)
      else
        (case map_of (nodes g) n of
           None \<Rightarrow> ([], Aborted (GraphError n))
         | Some action \<Rightarrow>
             (case action st of
                Inl e \<Rightarrow> ([n], Aborted e)
              | Inr u \<Rightarrow>
                  (let st' = reducer g st u in
                   case successors g st' n of
                     [m] \<Rightarrow> (let (ran, out) = run_from g budget m st' in (n # ran, out))
                   | _ \<Rightarrow> ([n], Aborted (GraphError n))))))"

text \<open>Modelled from the spec: an invocation starts at the target of the entry edge.\<close>

definition run_graph :: "('s, 'u) state_graph \<Rightarrow> nat \<Rightarrow> 's \<Rightarrow> string list \<times> 's outcome" where
  "run_graph g budget input =
     (case successors g input ''__start__'' of
        [n] \<Rightarrow> run_from g budget n input
      | _ \<Rightarrow> ([], Aborted (GraphError ''__start__'')))"

text \<open>The graph of pipeline.ts, lines 106-114.\<close>

definition graphQA :: "chat_model \<Rightarrow> 'v vector_index \<Rightarrow> (qa_state, qa_update) state_graph" where
  "graphQA llm vectorStore =
     (let g = StateGraph apply_update;
          g = addNode g ''analyzeQuery'' (analyzeQuery llm);
          g = addNode g ''retrieve'' (retrieve vectorStore);
          g = addNode g ''generate'' (generate llm);
          g = addEdge g ''__start__'' ''analyzeQuery'';
          g = addEdge g ''analyzeQuery'' ''retrieve'';
          g = addEdge g ''retrieve'' ''generate'';
          g = addEdge g ''generate'' ''__end__''
      in g)"

text \<open>An invocation starts from \<^verbatim>\<open>{ question }\<close>.\<close>

definition inputs :: "string \<Rightarrow> qa_state" where
  "inputs q = \<lparr>question = q, search = None, context_docs = None, answer = None\<rparr>"

section \<open>The tool-calling variants\<close>

text \<open>
  The two tool-calling programs (the graph with \<^verbatim>\<open>queryOrRespond\<close>,
  \<^verbatim>\<open>tools\<close> and \<^verbatim>\<open>generate\<close>, compiled without and with a checkpointer)
  define a tool \<^verbatim>\<open>retrieve\<close> and a step \<^verbatim>\<open>generate\<close> of their own. The suffix
  \<open>_tc\<close> tells them from the steps of pipeline.ts of the same names.
\<close>

text \<open>\<^verbatim>\<open>retrieveSchema = z.object({ query: z.string() })\<close>\<close>

definition retrieveSchema :: "jobject \<Rightarrow> error + string" where
  "retrieveSchema obj =
     (case map_of obj ''query'' of
        Some (JString q) \<Rightarrow> Inr q
      | _ \<Rightarrow> Inl (SchemaError ''query''))"

text \<open>
  The tool \<^verbatim>\<open>retrieve\<close>: the two best chunks for the query, with no filter,
  returned as the serialised text and the chunks themselves.
\<close>

definition retrieve_tc :: "'v vector_index \<Rightarrow> jobject \<Rightarrow> error + string \<times> document list" where
  "retrieve_tc vectorStore input =
     (case retrieveSchema input of
        Inl e \<Rightarrow> Inl e
      | Inr q \<Rightarrow>
          (case similaritySearch vectorStore q 2 None of
             Inl e \<Rightarrow> Inl e
           | Inr retrievedDocs \<Rightarrow>
               (let serialized =
                      join newline
                        (map (\<lambda>doc. ''Source: '' @ source (metadata doc) @ newline @
                                     ''Content: '' @ pageContent doc)
                           retrievedDocs)
                in Inr (serialized, retrievedDocs))))"

text \<open>\<^verbatim>\<open>MessagesAnnotation\<close>: the state is the message list.\<close>

record messages_state =
  messages :: "message list"

text \<open>
  Modelled from the spec: the message history is append-only; the library
  appends a step's \<^verbatim>\<open>{ messages: [...] }\<close> to the state, as the comment in
  \<^verbatim>\<open>queryOrRespond\<close> says.
\<close>

definition messagesStateReducer :: "messages_state \<Rightarrow> messages_state \<Rightarrow> messages_state" where
  "messagesStateReducer st u = \<lparr>messages = messages st @ messages u\<rparr>"

definition queryOrRespond :: "chat_model \<Rightarrow> messages_state \<Rightarrow> error + messages_state" where
  "queryOrRespond llm state =
     (case invokeWithTools llm (messages state) of
        Inl e \<Rightarrow> Inl e
      | Inr response \<Rightarrow> Inr \<lparr>messages = [response]\<rparr>)"

text \<open>A message that contains a tool-call request.\<close>

definition has_tool_call :: "message \<Rightarrow> bool" where
  "has_tool_call m = (case m of AIMessage c (Some (tc # tcs)) \<Rightarrow> True | _ \<Rightarrow> False)"

text \<open>
  Modelled from the spec: the library's \<^verbatim>\<open>toolsCondition\<close>. If the model's
  response, the last message of the state, contains a tool-call request the
  route is \<^verbatim>\<open>tools\<close>, otherwise the terminal.
\<close>

definition toolsCondition :: "messages_state \<Rightarrow> string" where
  "toolsCondition state =
     (case messages state of
        [] \<Rightarrow> ''__end__''
      | _ \<Rightarrow> if has_tool_call (last (messages state)) then ''tools'' else ''__end__'')"

text \<open>\<^verbatim>\<open>message instanceof ToolMessage\<close>\<close>

definition isToolMessage :: "message \<Rightarrow> bool" where
  "isToolMessage m = (case m of ToolMessage c i a \<Rightarrow> True | _ \<Rightarrow> False)"

text \<open>
  The loop of \<^verbatim>\<open>generate\<close> over \<^verbatim>\<open>i = length - 1, ..., 0\<close>. The second
  argument is \<open>i + 1\<close>, so \<open>0\<close> is the loop's exit at \<^verbatim>\<open>i = -1\<close>; \<^verbatim>\<open>push\<close>
  appends to the collected list and \<^verbatim>\<open>break\<close> returns it.
\<close>

fun scan_back :: "message list \<Rightarrow> nat \<Rightarrow> message list \<Rightarrow> message list" where
  "scan_back msgs 0 recent = recent"
| "scan_back msgs (Suc i) recent =
     (if isToolMessage (msgs ! i) then scan_back msgs i (recent @ [msgs ! i]) else recent)"

definition recentToolMessages :: "message list \<Rightarrow> message list" where
  "recentToolMessages msgs = scan_back msgs (length msgs) []"

definition toolMessages :: "message list \<Rightarrow> message list" where
  "toolMessages msgs = rev (recentToolMessages msgs)"

definition docsContent :: "message list \<Rightarrow> string" where
  "docsContent msgs = join newline (map content (toolMessages msgs))"

text \<open>
  The system prompt: the fixed instructions (the five string literals the source
  concatenates), two newlines, and the text of the collected tool messages.
\<close>

definition instructions :: string where
  "instructions =
     ''You are an assistant for question-answering tasks. '' @
     ''Use the following pieces of retrieved context to answer '' @
     ''the question. If you don't know the answer, say that you '' @
     ''don't know. Use three sentences maximum and keep the '' @
     ''answer concise.''"

definition systemMessageContent :: "message list \<Rightarrow> string" where
  "systemMessageContent msgs = instructions @ newline @ newline @ docsContent msgs"

text \<open>
  The predicate of \<^verbatim>\<open>state.messages.filter\<close>. For an AI message the test is
  \<^verbatim>\<open>message.tool_calls?.length == 0\<close>, which is false when the field is
  undefined.
\<close>

definition is_conversation :: "message \<Rightarrow> bool" where
  "is_conversation m =
     (case m of
        HumanMessage c \<Rightarrow> True
      | SystemMessage c \<Rightarrow> True
      | AIMessage c tcs \<Rightarrow> (case tcs of None \<Rightarrow> False | Some calls \<Rightarrow> length calls = 0)
      | ToolMessage c i a \<Rightarrow> False)"

definition conversationMessages :: "message list \<Rightarrow> message list" where
  "conversationMessages msgs = filter is_conversation msgs"

definition prompt :: "message list \<Rightarrow> message list" where
  "prompt msgs = SystemMessage (systemMessageContent msgs) # conversationMessages msgs"

definition generate_tc :: "chat_model \<Rightarrow> messages_state \<Rightarrow> error + messages_state" where
  "generate_tc llm state =
     (case invoke llm (prompt (messages state)) of
        Inl e \<Rightarrow> Inl e
      | Inr response \<Rightarrow> Inr \<lparr>messages = [response]\<rparr>)"

text \<open>
  \<^verbatim>\<open>graphBuilder\<close>. The step \<^verbatim>\<open>tools\<close> is the library's prebuilt
  \<^verbatim>\<open>ToolNode([retrieve])\<close>; its action is a parameter.
\<close>

definition graphBuilder ::
  "chat_model \<Rightarrow> (messages_state \<Rightarrow> error + messages_state) \<Rightarrow>
   (messages_state, messages_state) state_graph" where
  "graphBuilder llm tools =
     (let g = StateGraph messagesStateReducer;
          g = addNode g ''queryOrRespond'' (queryOrRespond llm);
          g = addNode g ''tools'' tools;
          g = addNode g ''generate'' (generate_tc llm);
          g = addEdge g ''__start__'' ''queryOrRespond'';
          g = addConditionalEdges g ''queryOrRespond'' toolsCondition
                [(''__end__'', ''__end__''), (''tools'', ''tools'')];
          g = addEdge g ''tools'' ''generate'';
          g = addEdge g ''generate'' ''__end__''
      in g)"

section \<open>Sample data\<close>

text \<open>
  A small index for evaluating the definitions: the embedding of a text is its
  length, and two vectors are the more similar the closer they are.
\<close>

definition chunk :: "string \<Rightarrow> section_label \<Rightarrow> document" where
  "chunk t s =
     \<lparr>pageContent = t,
      metadata = \<lparr>source = ''https://lilianweng.github.io/posts/2023-06-23-agent/'',
                  doc_section = Some s\<rparr>\<rparr>"

definition sample_provider :: "nat embedding_provider" where
  "sample_provider = \<lparr>embed = (\<lambda>t. Inr (length t)), embedBatch = (\<lambda>ts. Inr (map length ts))\<rparr>"

definition sample_index :: "nat vector_index" where
  "sample_index =
     \<lparr>provider = sample_provider,
      similarity = (\<lambda>a b. - \<bar>real a - real b\<bar>),
      memoryVectors =
        [(chunk ''aa'' Beginning, 2), (chunk ''bbbb'' Middle, 4), (chunk ''cccccc'' End, 6),
         (chunk ''ddd'' End, 3), (chunk ''eeeee'' End, 5)]\<rparr>"

definition small_index :: "nat vector_index" where
  "small_index = sample_index\<lparr>memoryVectors := [(chunk ''aa'' Beginning, 2)]\<rparr>"

definition searching :: "string \<Rightarrow> section_label \<Rightarrow> qa_state" where
  "searching q s =
     \<lparr>question = q, search = Some \<lparr>query = q, search_section = s\<rparr>,
      context_docs = None, answer = None\<rparr>"

definition sample_llm :: chat_model where
  "sample_llm =
     \<lparr>invoke = (\<lambda>msgs. Inr (AIMessage ''It splits a task into steps. thanks for asking!'' (Some []))),
      invokeStructured =
        (\<lambda>q. Inr [(''query'', JString q),
                  (''section'', JString (if q = ''conclusion?'' then ''conclusion'' else ''end''))]),
      invokeWithTools = (\<lambda>msgs. Inr (AIMessage ''Hello!'' (Some [])))\<rparr>"

section \<open>The specification's wording of the context window\<close>

text \<open>
  The specification describes the messages the step \<^verbatim>\<open>generate\<close> draws its
  context from as the most recent contiguous run of tool-result messages: going
  backward from the last message, those taken while they are tool messages, in
  their original order. This is that description, to be compared with the loop
  of the source.
\<close>

definition trailing_tool_messages :: "message list \<Rightarrow> message list" where
  "trailing_tool_messages msgs = rev (takeWhile isToolMessage (rev msgs))"

section \<open>Sample conversation\<close>

definition retrieve_call :: "string \<Rightarrow> string \<Rightarrow> tool_call" where
  "retrieve_call i q = \<lparr>tc_name = ''retrieve'', tc_args = [(''query'', JString q)], tc_id = i\<rparr>"

definition sample_messages :: "message list" where
  "sample_messages =
     [HumanMessage ''What is Task Decomposition?'',
      AIMessage [] (Some [retrieve_call ''1'' ''task decomposition'']),
      ToolMessage ''first context'' ''1'' [],
      AIMessage ''It splits a task into steps.'' (Some []),
      HumanMessage ''Can you look up some common ways of doing it?'',
      AIMessage [] (Some [retrieve_call ''2'' ''ways'', retrieve_call ''3'' ''methods'']),
      ToolMessage ''context A'' ''2'' [],
      ToolMessage ''context B'' ''3'' []]"

section \<open>Auxiliary: a numbering of the steps of the tool-calling graph\<close>

text \<open>
  The steps numbered along the edges of \<^verbatim>\<open>graphBuilder\<close>; every transition goes to
  a higher number, which is how the graph is shown to have no loop.
\<close>

definition rank :: "string \<Rightarrow> nat" where
  "rank n =
     (if n = ''__start__'' then 0
      else if n = ''queryOrRespond'' then 1
      else if n = ''tools'' then 2
      else if n = ''generate'' then 3
      else 4)"

section \<open>Sample chat models for the tool-calling graph\<close>

definition tool_llm :: chat_model where
  "tool_llm =
     sample_llm\<lparr>invokeWithTools :=
       (\<lambda>msgs. Inr (AIMessage [] (Some [retrieve_call ''1'' ''task''])))\<rparr>"

definition sample_tools :: "messages_state \<Rightarrow> error + messages_state" where
  "sample_tools state =
     (case retrieve_tc sample_index [(''query'', JString ''task'')] of
        Inl e \<Rightarrow> Inl e
      | Inr (serialized, docs) \<Rightarrow> Inr \<lparr>messages = [ToolMessage serialized ''1'' docs]\<rparr>)"

definition hello :: messages_state where
  "hello = \<lparr>messages = [HumanMessage ''hello'']\<rparr>"

section \<open>Provider accessors (the module of memoised accessors)\<close>

text \<open>
  The module keeps three variables, \<^verbatim>\<open>_llm\<close>, \<^verbatim>\<open>_embeddings\<close> and
  \<^verbatim>\<open>_vectorStore\<close>, undefined until an accessor assigns them. Objects have an
  identity: every \<^verbatim>\<open>new\<close> appends the object to the heap, and a reference is
  the position of the object there. The vector store object holds the reference
  of the embeddings object it was constructed with.
\<close>

datatype client =
    ChatAnthropic string int string
  | CohereEmbeddings string
  | MemoryVectorStore nat

record models_module =
  heap :: "client list"
  llm_var :: "nat option"
  embeddings_var :: "nat option"
  vectorStore_var :: "nat option"

definition initial_module :: models_module where
  "initial_module = \<lparr>heap = [], llm_var = None, embeddings_var = None, vectorStore_var = None\<rparr>"

definition allocate :: "client \<Rightarrow> models_module \<Rightarrow> nat \<times> models_module" where
  "allocate obj m = (length (heap m), m\<lparr>heap := heap m @ [obj]\<rparr>)"

text \<open>
  Modelled from the spec: the constructor of the chat client (library code). A
  missing API key makes the construction fail. The accessor passes it
  \<^verbatim>\<open>process.env.ANTHROPIC_API_KEY\<close>.
\<close>

definition new_ChatAnthropic ::
  "string \<Rightarrow> int \<Rightarrow> string option \<Rightarrow> models_module \<Rightarrow> error + nat \<times> models_module" where
  "new_ChatAnthropic model temperature apiKey m =
     (case apiKey of
        None \<Rightarrow> Inl (ConfigurationError ''ANTHROPIC_API_KEY'')
      | Some k \<Rightarrow> Inr (allocate (ChatAnthropic model temperature k) m))"

text \<open>
  Modelled from the spec: the constructor of the embeddings client fails when
  its API key is missing from the environment.
\<close>

definition new_CohereEmbeddings ::
  "(string \<times> string) list \<Rightarrow> string \<Rightarrow> models_module \<Rightarrow> error + nat \<times> models_module" where
  "new_CohereEmbeddings env model m =
     (case map_of env ''COHERE_API_KEY'' of
        None \<Rightarrow> Inl (ConfigurationError ''COHERE_API_KEY'')
      | Some k \<Rightarrow> Inr (allocate (CohereEmbeddings model) m))"

text \<open>
  Modelled from the spec: the constructor of the in-memory vector index keeps
  the embeddings object it is given.
\<close>

definition new_MemoryVectorStore :: "nat \<Rightarrow> models_module \<Rightarrow> nat \<times> models_module" where
  "new_MemoryVectorStore e m = allocate (MemoryVectorStore e) m"

text \<open>
  The three accessors. Each returns its result and the module state after the
  call; a constructor that throws leaves the variable undefined.
\<close>

definition getLlm :: "(string \<times> string) list \<Rightarrow> models_module \<Rightarrow> (error + nat) \<times> models_module" where
  "getLlm env m =
     (case llm_var m of
        Some r \<Rightarrow> (Inr r, m)
      | None \<Rightarrow>
          (case new_ChatAnthropic ''claude-3-7-sonnet-20250219'' 0
                  (map_of env ''ANTHROPIC_API_KEY'') m of
             Inl e \<Rightarrow> (Inl e, m)
           | Inr (r, m') \<Rightarrow> (Inr r, m'\<lparr>llm_var := Some r\<rparr>)))"

definition getEmbeddings ::
  "(string \<times> string) list \<Rightarrow> models_module \<Rightarrow> (error + nat) \<times> models_module" where
  "getEmbeddings env m =
     (case embeddings_var m of
        Some r \<Rightarrow> (Inr r, m)
      | None \<Rightarrow>
          (case new_CohereEmbeddings env ''embed-english-v3.0'' m of
             Inl e \<Rightarrow> (Inl e, m)
           | Inr (r, m') \<Rightarrow> (Inr r, m'\<lparr>embeddings_var := Some r\<rparr>)))"

definition getVectorStore ::
  "(string \<times> string) list \<Rightarrow> models_module \<Rightarrow> (error + nat) \<times> models_module" where
  "getVectorStore env m =
     (case vectorStore_var m of
        Some r \<Rightarrow> (Inr r, m)
      | None \<Rightarrow>
          (case getEmbeddings env m of
             (Inl e, m') \<Rightarrow> (Inl e, m')
           | (Inr e, m') \<Rightarrow>
               (case new_MemoryVectorStore e m' of
                  (r, m'') \<Rightarrow> (Inr r, m''\<lparr>vectorStore_var := Some r\<rparr>))))"

text \<open>
  Call sequences: any program using the module calls the accessors in some
  order.
\<close>

datatype accessor = GetLlm | GetEmbeddings | GetVectorStore

fun call :: "(string \<times> string) list \<Rightarrow> accessor \<Rightarrow> models_module \<Rightarrow> (error + nat) \<times> models_module" where
  "call env GetLlm m = getLlm env m"
| "call env GetEmbeddings m = getEmbeddings env m"
| "call env GetVectorStore m = getVectorStore env m"

fun run_calls ::
  "(string \<times> string) list \<Rightarrow> accessor list \<Rightarrow> models_module \<Rightarrow> (error + nat) list \<times> models_module" where
  "run_calls env [] m = ([], m)"
| "run_calls env (a # as) m =
     (let (r, m') = call env a m;
          (rs, m'') = run_calls env as m'
      in (r # rs, m''))"

definition is_ChatAnthropic :: "client \<Rightarrow> bool" where
  "is_ChatAnthropic c = (case c of ChatAnthropic mo t k \<Rightarrow> True | _ \<Rightarrow> False)"

definition is_CohereEmbeddings :: "client \<Rightarrow> bool" where
  "is_CohereEmbeddings c = (case c of CohereEmbeddings mo \<Rightarrow> True | _ \<Rightarrow> False)"

definition is_MemoryVectorStore :: "client \<Rightarrow> bool" where
  "is_MemoryVectorStore c = (case c of MemoryVectorStore e \<Rightarrow> True | _ \<Rightarrow> False)"

definition constructed :: "(client \<Rightarrow> bool) \<Rightarrow> models_module \<Rightarrow> nat" where
  "constructed kind m = length (filter kind (heap m))"

definition kind_of :: "accessor \<Rightarrow> client \<Rightarrow> bool" where
  "kind_of a =
     (case a of
        GetLlm \<Rightarrow> is_ChatAnthropic
      | GetEmbeddings \<Rightarrow> is_CohereEmbeddings
      | GetVectorStore \<Rightarrow> is_MemoryVectorStore)"

text \<open>
  An accessor is settled in a state when calling it returns \<open>r\<close> and changes
  nothing: its variable is assigned, or its client cannot be constructed in this
  environment.
\<close>

definition settled :: "(string \<times> string) list \<Rightarrow> accessor \<Rightarrow> models_module \<Rightarrow> error + nat \<Rightarrow> bool" where
  "settled env a m r =
     (case a of
        GetLlm \<Rightarrow>
          (case llm_var m of
             Some x \<Rightarrow> r = Inr x
           | None \<Rightarrow> map_of env ''ANTHROPIC_API_KEY'' = None \<and>
                     r = Inl (ConfigurationError ''ANTHROPIC_API_KEY''))
      | GetEmbeddings \<Rightarrow>
          (case embeddings_var m of
             Some x \<Rightarrow> r = Inr x
           | None \<Rightarrow> map_of env ''COHERE_API_KEY'' = None \<and>
                     r = Inl (ConfigurationError ''COHERE_API_KEY''))
      | GetVectorStore \<Rightarrow>
          (case vectorStore_var m of
             Some x \<Rightarrow> r = Inr x
           | None \<Rightarrow> embeddings_var m = None \<and> map_of env ''COHERE_API_KEY'' = None \<and>
                     r = Inl (ConfigurationError ''COHERE_API_KEY'')))"

text \<open>
  The invariant of the module: each variable is assigned exactly when one client
  of its kind has been constructed, it refers to that client, and the vector
  store refers to the embeddings the variable holds.
\<close>

definition singletons :: "models_module \<Rightarrow> bool" where
  "singletons m =
     (constructed is_ChatAnthropic m = (case llm_var m of None \<Rightarrow> 0 | Some x \<Rightarrow> 1) \<and>
      constructed is_CohereEmbeddings m = (case embeddings_var m of None \<Rightarrow> 0 | Some x \<Rightarrow> 1) \<and>
      constructed is_MemoryVectorStore m = (case vectorStore_var m of None \<Rightarrow> 0 | Some x \<Rightarrow> 1) \<and>
      (case llm_var m of
         None \<Rightarrow> True
       | Some x \<Rightarrow> x < length (heap m) \<and> is_ChatAnthropic (heap m ! x)) \<and>
      (case embeddings_var m of
         None \<Rightarrow> True
       | Some e \<Rightarrow> e < length (heap m) \<and> is_CohereEmbeddings (heap m ! e)) \<and>
      (case vectorStore_var m of
         None \<Rightarrow> True
       | Some v \<Rightarrow> v < length (heap m) \<and>
           (case embeddings_var m of
              None \<Rightarrow> False
            | Some e \<Rightarrow> heap m ! v = MemoryVectorStore e)))"

section \<open>Sample environment\<close>

definition sample_env :: "(string \<times> string) list" where
  "sample_env = [(''ANTHROPIC_API_KEY'', ''sk-ant''), (''COHERE_API_KEY'', ''co-key'')]"

definition sample_calls :: "accessor list" where
  "sample_calls = [GetVectorStore, GetLlm, GetEmbeddings, GetVectorStore, GetLlm]"

definition sample_module :: models_module where
  "sample_module =
     \<lparr>heap = [CohereEmbeddings ''embed-english-v3.0'', MemoryVectorStore 0,
              ChatAnthropic ''claude-3-7-sonnet-20250219'' 0 ''sk-ant''],
      llm_var = Some 2, embeddings_var = Some 0, vectorStore_var = Some 1\<rparr>"

section \<open>The command-line program (the variant with the prebuilt agent)\<close>

text \<open>
  What the program does that can be observed from outside: lines written to the
  console, the exit of the process, the calls to its collaborators, the input
  given to the agent, and an error no handler caught. \<^verbatim>\<open>PrettyPrint\<close> stands
  for the line \<^verbatim>\<open>prettyPrint\<close> writes for a message; its text is not modelled.
\<close>

datatype effect =
    ConsoleError string
  | ConsoleLog string
  | ProcessExit nat
  | Call string
  | AgentStream "message list"
  | PrettyPrint message
  | Uncaught error

text \<open>
  The collaborators of the program: the environment variables, the page loader,
  the text splitter, the embedding provider with the similarity of the index,
  and the library's prebuilt agent, which is given the tool and the input and
  yields the states it streams.
\<close>

record 'v world =
  environment :: "(string \<times> string) list"
  cheerioLoader_load :: "error + document list"
  splitDocuments :: "document list \<Rightarrow> document list"
  embeddings_provider :: "'v embedding_provider"
  vector_similarity :: "'v \<Rightarrow> 'v \<Rightarrow> real"
  createReactAgent ::
    "(jobject \<Rightarrow> error + string \<times> document list) \<Rightarrow> message list \<Rightarrow> error + message list list"

text \<open>
  The loop over the streamed states: \<^verbatim>\<open>step.messages[step.messages.length - 1]\<close>
  is undefined for a state without messages, and \<^verbatim>\<open>prettyPrint\<close> throws on it.
\<close>

definition print_steps :: "message list list \<Rightarrow> effect list" where
  "print_steps steps =
     concat (map (\<lambda>step.
                    case step of
                      [] \<Rightarrow> [Uncaught (TypeError ''lastMessage is undefined'')]
                    | _ \<Rightarrow> [PrettyPrint (last step), ConsoleLog (''--------'' @ newline)])
               steps)"

text \<open>
  The body of \<^verbatim>\<open>main\<close> after the argument parsing: the clients, the page, the
  chunks and their section labels, the index, and the agent run on the user's
  query.
\<close>

definition workflow :: "'v world \<Rightarrow> string \<Rightarrow> effect list" where
  "workflow w userQuery =
     Call ''getLlm'' #
     (case getLlm (environment w) initial_module of
        (Inl e, m) \<Rightarrow> [Uncaught e]
      | (Inr llm, m) \<Rightarrow>
          Call ''getVectorStore'' #
          (case getVectorStore (environment w) m of
             (Inl e, m') \<Rightarrow> [Uncaught e]
           | (Inr vectorStore, m') \<Rightarrow>
               Call ''cheerioLoader.load'' #
               (case cheerioLoader_load w of
                  Inl e \<Rightarrow> [Uncaught e]
                | Inr docs \<Rightarrow>
                    Call ''splitter.splitDocuments'' #
                    (let allSplits = label_sections (splitDocuments w docs) in
                     Call ''vectorStore.addDocuments'' #
                     (case addDocuments
                             \<lparr>provider = embeddings_provider w,
                              similarity = vector_similarity w,
                              memoryVectors = []\<rparr> allSplits of
                        Inl e \<Rightarrow> [Uncaught e]
                      | Inr store \<Rightarrow>
                          (let userInput = [HumanMessage userQuery] in
                           ConsoleLog (''Processing with agent...'' @ newline) #
                           AgentStream userInput #
                           (case createReactAgent w (retrieve_tc store) userInput of
                              Inl e \<Rightarrow> [Uncaught e]
                            | Inr steps \<Rightarrow> print_steps steps)))))))"

text \<open>
  \<^verbatim>\<open>main\<close>: \<^verbatim>\<open>process.argv.slice(2)\<close> drops the interpreter and the script;
  \<^verbatim>\<open>process.exit(1)\<close> ends the process, so nothing follows it.
\<close>

definition main :: "'v world \<Rightarrow> string list \<Rightarrow> effect list" where
  "main w argv =
     (let args = drop 2 argv in
      if length args = 0
      then [ConsoleError ''Error: Please provide a query as a command line argument.'',
            ConsoleError ''Usage: npx tsx pipeline.ts \"Your query here\"'',
            ProcessExit 1]
      else (let userQuery = args ! 0 in
            ConsoleLog (''Processing query: \"'' @ userQuery @ ''\"'') # workflow w userQuery))"

text \<open>
  The effects other than an exit of the process or an input to the agent.
\<close>

definition other_effect :: "effect \<Rightarrow> bool" where
  "other_effect e = (case e of ProcessExit n \<Rightarrow> False | AgentStream msgs \<Rightarrow> False | _ \<Rightarrow> True)"

section \<open>Sample collaborators for the command-line program\<close>

definition sample_world :: "nat world" where
  "sample_world =
     \<lparr>environment = sample_env,
      cheerioLoader_load = Inr [\<lparr>pageContent = ''Task decomposition splits a task.'',
                                 metadata = \<lparr>source = ''https://lilianweng.github.io/posts/2023-06-23-agent/'',
                                             doc_section = None\<rparr>\<rparr>],
      splitDocuments = (\<lambda>docs. docs),
      embeddings_provider = sample_provider,
      vector_similarity = (\<lambda>a b. - \<bar>real a - real b\<bar>),
      createReactAgent = (\<lambda>tool input. Inr [input, input @ [AIMessage ''Hello!'' (Some [])]])\<rparr>"

section \<open>Properties of the labelling\<close>

lemma length_label_sections: "length (label_sections xs) = length xs"
  by (simp add: label_sections_def)

lemma label_sections_nth:
  assumes "i < length xs"
  shows "label_sections xs ! i = set_section (section_of i (length xs)) (xs ! i)"
  using assms by (simp add: label_sections_def nth_enumerate_eq)

lemma label_of_set_section: "label_of (set_section s d) = Some s"
  by (simp add: label_of_def set_section_def)

lemma map_label_of_label_sections:
  "map label_of (label_sections xs) = map (\<lambda>i. Some (section_of i (length xs))) [0..<length xs]"
  by (rule nth_equalityI) (simp_all add: length_label_sections label_sections_nth label_of_set_section)

lemma count_label_conv:
  "count_label s (label_sections xs) =
     card {i. i < length xs \<and> section_of i (length xs) = s}"
proof -
  have "count_label s (label_sections xs) =
        length (filter (\<lambda>l. l = Some s) (map label_of (label_sections xs)))"
    by (simp add: count_label_def filter_map comp_def)
  also have "\<dots> = length (filter (\<lambda>i. section_of i (length xs) = s) [0..<length xs])"
    by (simp add: map_label_of_label_sections filter_map comp_def)
  also have "\<dots> = card {i. i < length xs \<and> section_of i (length xs) = s}"
    by (simp add: length_filter_conv_card cong: conj_cong)
  finally show ?thesis .
qed

lemma card_beginning: "card {i. i < n \<and> section_of i n = Beginning} = n div 3"
proof -
  have "{i. i < n \<and> section_of i n = Beginning} = {..<n div 3}"
    by (auto simp: section_of_def third_def)
  then show ?thesis by simp
qed

lemma card_middle: "card {i. i < n \<and> section_of i n = Middle} = n div 3"
proof -
  have "{i. i < n \<and> section_of i n = Middle} = {n div 3..<n div 3 * 2}"
    by (auto simp: section_of_def third_def)
  then show ?thesis by simp
qed

lemma card_end: "card {i. i < n \<and> section_of i n = End} = n - 2 * (n div 3)"
proof -
  have "{i. i < n \<and> section_of i n = End} = {n div 3 * 2..<n}"
    by (auto simp: section_of_def third_def)
  then show ?thesis by simp
qed

text \<open>
  Claim C1. For every chunk count \<open>N\<close> and index \<open>i < N\<close>, the chunk at index \<open>i\<close>
  is labelled beginning exactly when \<open>i < N div 3\<close>, middle exactly when
  \<open>N div 3 \<le> i < 2 * (N div 3)\<close>, and end otherwise; so \<open>N div 3\<close> chunks are
  labelled beginning, \<open>N div 3\<close> middle and \<open>N - 2 * (N div 3)\<close> end. The label
  written depends on the index and the count only: neither the text of the
  chunk nor a label it carried before has any influence.
\<close>

theorem section_labelling_by_thirds:
  "(\<forall>i<length allSplits.
      (label_of (label_sections allSplits ! i) = Some Beginning \<longleftrightarrow>
         i < length allSplits div 3) \<and>
      (label_of (label_sections allSplits ! i) = Some Middle \<longleftrightarrow>
         length allSplits div 3 \<le> i \<and> i < 2 * (length allSplits div 3)) \<and>
      (label_of (label_sections allSplits ! i) = Some End \<longleftrightarrow>
         2 * (length allSplits div 3) \<le> i) \<and>
      label_of (label_sections allSplits ! i) = Some (section_of i (length allSplits))) \<and>
   length (label_sections allSplits) = length allSplits \<and>
   count_label Beginning (label_sections allSplits) = length allSplits div 3 \<and>
   count_label Middle (label_sections allSplits) = length allSplits div 3 \<and>
   count_label End (label_sections allSplits) =
     length allSplits - 2 * (length allSplits div 3) \<and>
   (\<forall>other. length other = length allSplits \<longrightarrow>
      map label_of (label_sections other) = map label_of (label_sections allSplits))"
proof (intro conjI)
  show "\<forall>i<length allSplits.
      (label_of (label_sections allSplits ! i) = Some Beginning \<longleftrightarrow>
         i < length allSplits div 3) \<and>
      (label_of (label_sections allSplits ! i) = Some Middle \<longleftrightarrow>
         length allSplits div 3 \<le> i \<and> i < 2 * (length allSplits div 3)) \<and>
      (label_of (label_sections allSplits ! i) = Some End \<longleftrightarrow>
         2 * (length allSplits div 3) \<le> i) \<and>
      label_of (label_sections allSplits ! i) = Some (section_of i (length allSplits))"
    by (auto simp: label_sections_nth label_of_set_section section_of_def third_def)
  show "length (label_sections allSplits) = length allSplits"
    by (simp add: length_label_sections)
  show "count_label Beginning (label_sections allSplits) = length allSplits div 3"
    by (simp add: count_label_conv card_beginning)
  show "count_label Middle (label_sections allSplits) = length allSplits div 3"
    by (simp add: count_label_conv card_middle)
  show "count_label End (label_sections allSplits) =
     length allSplits - 2 * (length allSplits div 3)"
    by (simp add: count_label_conv card_end)
  show "\<forall>other. length other = length allSplits \<longrightarrow>
      map label_of (label_sections other) = map label_of (label_sections allSplits)"
    by (simp add: map_label_of_label_sections)
qed

text \<open>
  The labelling evaluated on seven chunks: two beginning, two middle, three end;
  index 4 is at the boundary \<open>2 * (7 div 3)\<close> and already belongs to end.
\<close>

theorem section_labelling_by_thirds_witness:
  "(4::nat) < length (replicate 7 \<lparr>pageContent = ''p'', metadata = \<lparr>source = ''u'', doc_section = None\<rparr>\<rparr>) \<and>
   label_of (label_sections
     (replicate 7 \<lparr>pageContent = ''p'', metadata = \<lparr>source = ''u'', doc_section = None\<rparr>\<rparr>) ! 4)
     = Some End \<and>
   count_label Beginning (label_sections
     (replicate 7 \<lparr>pageContent = ''p'', metadata = \<lparr>source = ''u'', doc_section = None\<rparr>\<rparr>)) = 2 \<and>
   count_label End (label_sections
     (replicate 7 \<lparr>pageContent = ''p'', metadata = \<lparr>source = ''u'', doc_section = None\<rparr>\<rparr>)) = 3"
  using section_labelling_by_thirds
    [of "replicate 7 \<lparr>pageContent = ''p'', metadata = \<lparr>source = ''u'', doc_section = None\<rparr>\<rparr>"]
  by (simp add: section_of_def third_def)

section \<open>Properties of retrieval\<close>

lemma similaritySearch_error:
  "embed (provider vs) q = Inl e \<Longrightarrow> similaritySearch vs q k fo = Inl e"
  by (simp add: similaritySearch_def)

lemma similaritySearch_length:
  assumes "similaritySearch vs q k fo = Inr docs"
  shows "length docs \<le> k"
  using assms by (auto simp: similaritySearch_def Let_def split: sum.splits)

lemma similaritySearch_filtered:
  assumes "similaritySearch vs q k (Some f) = Inr docs" and "d \<in> set docs"
  shows "f d \<and> d \<in> set (stored_chunks vs)"
proof -
  from assms(1) obtain qv where
    docs: "docs = map fst (take k (sort_key (\<lambda>(d, v). - similarity vs qv v)
             (filter (\<lambda>(d, v). f d) (memoryVectors vs))))"
    by (auto simp: similaritySearch_def Let_def split: sum.splits)
  from assms(2) obtain v where
    "(d, v) \<in> set (take k (sort_key (\<lambda>(d, v). - similarity vs qv v)
             (filter (\<lambda>(d, v). f d) (memoryVectors vs))))"
    unfolding docs by auto
  then have "(d, v) \<in> set (filter (\<lambda>(d, v). f d) (memoryVectors vs))"
    using set_take_subset by fastforce
  then show ?thesis by (force simp: stored_chunks_def)
qed

lemma similaritySearch_count:
  assumes "embed (provider vs) q = Inr qv"
  shows "\<exists>docs. similaritySearch vs q k (Some f) = Inr docs \<and>
           length docs = min k (length (filter f (stored_chunks vs)))"
proof -
  have "length (filter (\<lambda>(d, v). f d) (memoryVectors vs)) = length (filter f (stored_chunks vs))"
    by (simp add: stored_chunks_def filter_map comp_def case_prod_unfold)
  then show ?thesis using assms
    by (simp add: similaritySearch_def Let_def min.commute)
qed

lemma similaritySearch_all_count:
  assumes "embed (provider vs) q = Inr qv"
  shows "\<exists>docs. similaritySearch vs q k None = Inr docs \<and>
           length docs = min k (length (stored_chunks vs))"
  using assms by (simp add: similaritySearch_def Let_def min.commute stored_chunks_def)

lemma retrieve_sample_End:
  "retrieve sample_index (searching ''task'' End) =
     Inr (no_update\<lparr>upd_context := Some [chunk ''ddd'' End, chunk ''eeeee'' End]\<rparr>)"
  by (simp add: retrieve_def searching_def similaritySearch_def sample_index_def
      sample_provider_def chunk_def)

lemma retrieve_tc_sample:
  "retrieve_tc sample_index [(''query'', JString ''task'')] =
     Inr (''Source: https://lilianweng.github.io/posts/2023-06-23-agent/'' @ newline @
          ''Content: bbbb'' @ newline @
          ''Source: https://lilianweng.github.io/posts/2023-06-23-agent/'' @ newline @
          ''Content: ddd'',
          [chunk ''bbbb'' Middle, chunk ''ddd'' End])"
  by (simp add: retrieve_tc_def retrieveSchema_def similaritySearch_def sample_index_def
      sample_provider_def chunk_def)

text \<open>
  Claim C2. For every query and requested section, the retrieval step of the
  query-analysed workflow returns only stored chunks whose section label equals
  the requested section; and when no stored chunk has that section (and the
  embedding of the query was obtained), the step returns the empty sequence as
  its result, not an error.
\<close>

theorem retrieve_section_filter:
  "(\<forall>u. retrieve vs state = Inr u \<longrightarrow>
      (\<exists>s docs. search state = Some s \<and> u = no_update\<lparr>upd_context := Some docs\<rparr> \<and>
         (\<forall>d \<in> set docs. label_of d = Some (search_section s) \<and> d \<in> set (stored_chunks vs)))) \<and>
   (\<forall>s qv. search state = Some s \<and> embed (provider vs) (query s) = Inr qv \<and>
        count_label (search_section s) (stored_chunks vs) = 0 \<longrightarrow>
      retrieve vs state = Inr (no_update\<lparr>upd_context := Some []\<rparr>))"
proof (intro conjI allI impI)
  fix u assume r: "retrieve vs state = Inr u"
  then obtain s where s: "search state = Some s"
    by (auto simp: retrieve_def split: option.splits)
  let ?f = "\<lambda>doc. doc_section (metadata doc) = Some (search_section s)"
  from r s obtain docs where
    docs: "similaritySearch vs (query s) 2 (Some ?f) = Inr docs" and
    u: "u = no_update\<lparr>upd_context := Some docs\<rparr>"
    by (auto simp: retrieve_def Let_def split: sum.splits)
  have "\<forall>d \<in> set docs. label_of d = Some (search_section s) \<and> d \<in> set (stored_chunks vs)"
    using similaritySearch_filtered [OF docs] by (simp add: label_of_def)
  with s u show "\<exists>s docs. search state = Some s \<and> u = no_update\<lparr>upd_context := Some docs\<rparr> \<and>
         (\<forall>d \<in> set docs. label_of d = Some (search_section s) \<and> d \<in> set (stored_chunks vs))"
    by blast
next
  fix s qv
  assume a: "search state = Some s \<and> embed (provider vs) (query s) = Inr qv \<and>
        count_label (search_section s) (stored_chunks vs) = 0"
  let ?f = "\<lambda>doc. doc_section (metadata doc) = Some (search_section s)"
  from a have e: "embed (provider vs) (query s) = Inr qv" by simp
  from a have "length (filter ?f (stored_chunks vs)) = 0"
    by (simp add: count_label_def label_of_def)
  with similaritySearch_count [OF e, of 2 ?f]
  have "similaritySearch vs (query s) 2 (Some ?f) = Inr []" by auto
  with a show "retrieve vs state = Inr (no_update\<lparr>upd_context := Some []\<rparr>)"
    by (simp add: retrieve_def)
qed

theorem retrieve_section_filter_witness:
  "retrieve sample_index (searching ''task'' End) =
     Inr (no_update\<lparr>upd_context := Some [chunk ''ddd'' End, chunk ''eeeee'' End]\<rparr>) \<and>
   label_of (chunk ''ddd'' End) = Some End \<and>
   label_of (chunk ''eeeee'' End) = Some End \<and>
   count_label Middle (stored_chunks small_index) = 0 \<and>
   retrieve small_index (searching ''task'' Middle) = Inr (no_update\<lparr>upd_context := Some []\<rparr>)"
proof -
  have r: "retrieve sample_index (searching ''task'' End) =
     Inr (no_update\<lparr>upd_context := Some [chunk ''ddd'' End, chunk ''eeeee'' End]\<rparr>)"
    by (rule retrieve_sample_End)
  have s: "search (searching ''task'' End) = Some \<lparr>query = ''task'', search_section = End\<rparr>"
    by (simp add: searching_def)
  from retrieve_section_filter [of sample_index "searching ''task'' End"] r s
  have l: "label_of (chunk ''ddd'' End) = Some End \<and> label_of (chunk ''eeeee'' End) = Some End"
    by (auto simp: no_update_def)
  have z: "count_label Middle (stored_chunks small_index) = 0"
    by (simp add: count_label_def stored_chunks_def small_index_def sample_index_def
        label_of_def chunk_def)
  have "search (searching ''task'' Middle) = Some \<lparr>query = ''task'', search_section = Middle\<rparr>"
    and "embed (provider small_index) ''task'' = Inr 4"
    by (simp_all add: searching_def small_index_def sample_index_def sample_provider_def)
  with retrieve_section_filter [of small_index "searching ''task'' Middle"] z
  have "retrieve small_index (searching ''task'' Middle) = Inr (no_update\<lparr>upd_context := Some []\<rparr>)"
    by simp
  with r l z show ?thesis by simp
qed

text \<open>
  Claim C3. Both retrieval operations, the retrieval step of the graph and the
  tool, return at most the two chunks they ask for. With a filter that matches
  fewer than two stored chunks the step returns exactly the matching ones
  (possibly none), and it returns a result whenever the embedding of the query
  was obtained: a missing match is never a failure.
\<close>

theorem retrieval_at_most_top_k:
  "(\<forall>u. retrieve vs state = Inr u \<longrightarrow>
      (\<exists>docs. u = no_update\<lparr>upd_context := Some docs\<rparr> \<and> length docs \<le> 2)) \<and>
   (\<forall>serialized docs. retrieve_tc vs input = Inr (serialized, docs) \<longrightarrow> length docs \<le> 2) \<and>
   (\<forall>s qv. search state = Some s \<and> embed (provider vs) (query s) = Inr qv \<longrightarrow>
      (\<exists>docs. retrieve vs state = Inr (no_update\<lparr>upd_context := Some docs\<rparr>) \<and>
         length docs = min 2 (count_label (search_section s) (stored_chunks vs)))) \<and>
   (\<forall>q qv. retrieveSchema input = Inr q \<and> embed (provider vs) q = Inr qv \<longrightarrow>
      (\<exists>serialized docs. retrieve_tc vs input = Inr (serialized, docs) \<and>
         length docs = min 2 (length (stored_chunks vs))))"
proof (intro conjI allI impI)
  fix u assume r: "retrieve vs state = Inr u"
  then obtain s where s: "search state = Some s"
    by (auto simp: retrieve_def split: option.splits)
  from r s obtain docs where
    docs: "similaritySearch vs (query s) 2
             (Some (\<lambda>doc. doc_section (metadata doc) = Some (search_section s))) = Inr docs" and
    u: "u = no_update\<lparr>upd_context := Some docs\<rparr>"
    by (auto simp: retrieve_def Let_def split: sum.splits)
  from similaritySearch_length [OF docs] u
  show "\<exists>docs. u = no_update\<lparr>upd_context := Some docs\<rparr> \<and> length docs \<le> 2" by blast
next
  fix serialized docs
  assume "retrieve_tc vs input = Inr (serialized, docs)"
  then obtain q where "similaritySearch vs q 2 None = Inr docs"
    by (auto simp: retrieve_tc_def Let_def split: sum.splits)
  then show "length docs \<le> 2" by (rule similaritySearch_length)
next
  fix s qv
  assume a: "search state = Some s \<and> embed (provider vs) (query s) = Inr qv"
  then have e: "embed (provider vs) (query s) = Inr qv" by simp
  from similaritySearch_count [OF e, of 2 "\<lambda>doc. doc_section (metadata doc) = Some (search_section s)"]
  obtain docs where
    "similaritySearch vs (query s) 2
       (Some (\<lambda>doc. doc_section (metadata doc) = Some (search_section s))) = Inr docs"
    "length docs = min 2 (count_label (search_section s) (stored_chunks vs))"
    by (auto simp: count_label_def label_of_def)
  with a show "\<exists>docs. retrieve vs state = Inr (no_update\<lparr>upd_context := Some docs\<rparr>) \<and>
         length docs = min 2 (count_label (search_section s) (stored_chunks vs))"
    by (auto simp: retrieve_def)
next
  fix q qv
  assume a: "retrieveSchema input = Inr q \<and> embed (provider vs) q = Inr qv"
  then have e: "embed (provider vs) q = Inr qv" by simp
  from similaritySearch_all_count [OF e, of 2]
  obtain docs where "similaritySearch vs q 2 None = Inr docs"
    "length docs = min 2 (length (stored_chunks vs))" by auto
  with a show "\<exists>serialized docs. retrieve_tc vs input = Inr (serialized, docs) \<and>
         length docs = min 2 (length (stored_chunks vs))"
    by (auto simp: retrieve_tc_def Let_def)
qed

theorem retrieval_at_most_top_k_witness:
  "retrieve sample_index (searching ''task'' End) =
     Inr (no_update\<lparr>upd_context := Some [chunk ''ddd'' End, chunk ''eeeee'' End]\<rparr>) \<and>
   length [chunk ''ddd'' End, chunk ''eeeee'' End] \<le> 2 \<and>
   count_label Beginning (stored_chunks sample_index) = 1 \<and>
   (\<exists>docs. retrieve sample_index (searching ''task'' Beginning) =
        Inr (no_update\<lparr>upd_context := Some docs\<rparr>) \<and> length docs = 1) \<and>
   (\<exists>serialized docs. retrieve_tc sample_index [(''query'', JString ''task'')] =
        Inr (serialized, docs) \<and> length docs = 2)"
proof -
  have c: "count_label Beginning (stored_chunks sample_index) = 1"
    by (simp add: count_label_def stored_chunks_def sample_index_def label_of_def chunk_def)
  have "search (searching ''task'' Beginning) = Some \<lparr>query = ''task'', search_section = Beginning\<rparr>"
    and "embed (provider sample_index) ''task'' = Inr 4"
    and "retrieveSchema [(''query'', JString ''task'')] = Inr ''task''"
    and "length (stored_chunks sample_index) = 5"
    by (simp_all add: searching_def sample_index_def sample_provider_def retrieveSchema_def
        stored_chunks_def)
  with retrieval_at_most_top_k
    [of sample_index "searching ''task'' Beginning" "[(''query'', JString ''task'')]"] c
  show ?thesis by (simp add: retrieve_sample_End)
qed

section \<open>Properties of the query-analysed workflow\<close>

lemma successors_graphQA:
  "successors (graphQA llm vs) st ''__start__'' = [''analyzeQuery'']"
  "successors (graphQA llm vs) st ''analyzeQuery'' = [''retrieve'']"
  "successors (graphQA llm vs) st ''retrieve'' = [''generate'']"
  "successors (graphQA llm vs) st ''generate'' = [''__end__'']"
  by (simp_all add: graphQA_def successors_def StateGraph_def addNode_def addEdge_def)

lemma nodes_graphQA:
  "map_of (nodes (graphQA llm vs)) ''analyzeQuery'' = Some (analyzeQuery llm)"
  "map_of (nodes (graphQA llm vs)) ''retrieve'' = Some (retrieve vs)"
  "map_of (nodes (graphQA llm vs)) ''generate'' = Some (generate llm)"
  "reducer (graphQA llm vs) = apply_update"
  by (simp_all add: graphQA_def StateGraph_def addNode_def addEdge_def)

lemma run_from_end: "run_from g n ''__end__'' st = ([], Finished st)"
  by (cases n) simp_all

lemma run_graphQA:
  "run_graph (graphQA llm vs) (Suc (Suc (Suc n))) st =
     (case analyzeQuery llm st of
        Inl e \<Rightarrow> ([''analyzeQuery''], Aborted e)
      | Inr u \<Rightarrow>
          (case retrieve vs (apply_update st u) of
             Inl e \<Rightarrow> ([''analyzeQuery'', ''retrieve''], Aborted e)
           | Inr u' \<Rightarrow>
               (case generate llm (apply_update (apply_update st u) u') of
                  Inl e \<Rightarrow> ([''analyzeQuery'', ''retrieve'', ''generate''], Aborted e)
                | Inr u'' \<Rightarrow>
                    ([''analyzeQuery'', ''retrieve'', ''generate''],
                     Finished (apply_update (apply_update (apply_update st u) u') u'')))))"
  by (simp add: run_graph_def run_from_end successors_graphQA nodes_graphQA split: sum.splits)

lemma run_graphQA_first_step:
  "run_graph (graphQA llm vs) (Suc n) st =
     (case analyzeQuery llm st of
        Inl e \<Rightarrow> ([''analyzeQuery''], Aborted e)
      | Inr u \<Rightarrow>
         (let (ran, out) = run_from (graphQA llm vs) n ''retrieve'' (apply_update st u)
          in (''analyzeQuery'' # ran, out)))"
  by (simp add: run_graph_def successors_graphQA nodes_graphQA split: sum.splits)

lemma searchSchema_error: "searchSchema obj = Inl e \<Longrightarrow> \<exists>field. e = SchemaError field"
  by (auto simp: searchSchema_def split: option.splits jvalue.splits)

text \<open>
  Claim C8. If the object the chat model returns for \<^verbatim>\<open>analyzeQuery\<close> does not
  validate against the search schema, the validation error is the error of the
  step and of the whole invocation: the step ran once, no later step ran, and
  no retrieval, filtered or not, took its place, whatever the index holds.
\<close>

theorem schema_failure_aborts_invocation:
  "invokeStructured llm (question st) = Inr obj \<and> searchSchema obj = Inl e \<longrightarrow>
     (\<exists>field. e = SchemaError field) \<and>
     analyzeQuery llm st = Inl e \<and>
     (\<forall>vs budget. run_graph (graphQA llm vs) (Suc budget) st = ([''analyzeQuery''], Aborted e))"
proof (intro impI conjI allI)
  assume a: "invokeStructured llm (question st) = Inr obj \<and> searchSchema obj = Inl e"
  then show "\<exists>field. e = SchemaError field" by (blast dest: searchSchema_error)
  from a show aq: "analyzeQuery llm st = Inl e"
    by (simp add: analyzeQuery_def structuredLlm_def)
  fix vs :: "'a vector_index" and budget
  show "run_graph (graphQA llm vs) (Suc budget) st = ([''analyzeQuery''], Aborted e)"
    by (simp add: run_graphQA_first_step aq)
qed

theorem schema_failure_aborts_invocation_witness:
  "invokeStructured sample_llm (question (inputs ''conclusion?'')) =
     Inr [(''query'', JString ''conclusion?''), (''section'', JString ''conclusion'')] \<and>
   searchSchema [(''query'', JString ''conclusion?''), (''section'', JString ''conclusion'')] =
     Inl (SchemaError ''section'') \<and>
   analyzeQuery sample_llm (inputs ''conclusion?'') = Inl (SchemaError ''section'') \<and>
   run_graph (graphQA sample_llm sample_index) (Suc 24) (inputs ''conclusion?'') =
     ([''analyzeQuery''], Aborted (SchemaError ''section''))"
proof -
  have 1: "invokeStructured sample_llm (question (inputs ''conclusion?'')) =
     Inr [(''query'', JString ''conclusion?''), (''section'', JString ''conclusion'')]"
    by (simp add: sample_llm_def inputs_def)
  have 2: "searchSchema [(''query'', JString ''conclusion?''), (''section'', JString ''conclusion'')] =
     Inl (SchemaError ''section'')"
    by (simp add: searchSchema_def section_enum_def)
  from schema_failure_aborts_invocation
    [of sample_llm "inputs ''conclusion?''"
        "[(''query'', JString ''conclusion?''), (''section'', JString ''conclusion'')]"
        "SchemaError ''section''"] 1 2
  have 3: "analyzeQuery sample_llm (inputs ''conclusion?'') = Inl (SchemaError ''section'')"
    and 4: "\<forall>vs budget. run_graph (graphQA sample_llm (vs :: nat vector_index)) (Suc budget)
              (inputs ''conclusion?'') = ([''analyzeQuery''], Aborted (SchemaError ''section''))"
    by blast+
  from 4 have "run_graph (graphQA sample_llm sample_index) (Suc 24) (inputs ''conclusion?'') =
     ([''analyzeQuery''], Aborted (SchemaError ''section''))" by blast
  with 1 2 3 show ?thesis by blast
qed

lemma analyzeQuery_frame:
  assumes "analyzeQuery llm st = Inr u"
  shows "(\<exists>s. u = no_update\<lparr>upd_search := Some s\<rparr>) \<and> apply_update st u = st\<lparr>search := upd_search u\<rparr>"
  using assms by (auto simp: analyzeQuery_def apply_update_def no_update_def split: sum.splits)

lemma retrieve_frame:
  assumes "retrieve vs st = Inr u"
  shows "(\<exists>docs. u = no_update\<lparr>upd_context := Some docs\<rparr>) \<and>
         apply_update st u = st\<lparr>context_docs := upd_context u\<rparr>"
  using assms
  by (auto simp: retrieve_def Let_def apply_update_def no_update_def split: sum.splits option.splits)

lemma generate_frame:
  assumes "generate llm st = Inr u"
  shows "(\<exists>a. u = no_update\<lparr>upd_answer := Some a\<rparr>) \<and> apply_update st u = st\<lparr>answer := upd_answer u\<rparr>"
  using assms
  by (auto simp: generate_def Let_def apply_update_def no_update_def split: sum.splits option.splits)

lemma run_graphQA_inputs:
  "run_graph (graphQA llm vs) (Suc (Suc (Suc n))) (inputs q) =
     (case structuredLlm llm q of
        Inl e \<Rightarrow> ([''analyzeQuery''], Aborted e)
      | Inr s \<Rightarrow>
          (case similaritySearch vs (query s) 2
                  (Some (\<lambda>doc. doc_section (metadata doc) = Some (search_section s))) of
             Inl e \<Rightarrow> ([''analyzeQuery'', ''retrieve''], Aborted e)
           | Inr docs \<Rightarrow>
               (case invoke llm (promptTemplate q (join newline (map pageContent docs))) of
                  Inl e \<Rightarrow> ([''analyzeQuery'', ''retrieve'', ''generate''], Aborted e)
                | Inr response \<Rightarrow>
                    ([''analyzeQuery'', ''retrieve'', ''generate''],
                     Finished \<lparr>question = q, search = Some s, context_docs = Some docs,
                               answer = Some (content response)\<rparr>))))"
  by (simp add: run_graphQA analyzeQuery_def retrieve_def generate_def inputs_def
      apply_update_def no_update_def Let_def split: sum.splits)

text \<open>
  Claim C9. Each step of the query-analysed workflow returns an update that
  writes its own channel only (\<^verbatim>\<open>analyzeQuery\<close> the search, \<^verbatim>\<open>retrieve\<close>
  the retrieved chunks, \<^verbatim>\<open>generate\<close> the answer), so merging it leaves every
  other channel as it was. What a step returns depends only on the channels it
  reads: the question for \<^verbatim>\<open>analyzeQuery\<close>, the search for \<^verbatim>\<open>retrieve\<close>, the
  question and the retrieved chunks for \<^verbatim>\<open>generate\<close>. In an invocation each of
  these channels has been written by an earlier step (or is the input) when it
  is read: the run is the three steps in order, each on the values the steps
  before it produced, and never the failure of reading an undefined channel.
\<close>

theorem workflow_steps_frame:
  "(\<forall>u. analyzeQuery llm st = Inr u \<longrightarrow>
      (\<exists>s. u = no_update\<lparr>upd_search := Some s\<rparr>) \<and>
      apply_update st u = st\<lparr>search := upd_search u\<rparr>) \<and>
   (\<forall>u. retrieve vs st = Inr u \<longrightarrow>
      (\<exists>docs. u = no_update\<lparr>upd_context := Some docs\<rparr>) \<and>
      apply_update st u = st\<lparr>context_docs := upd_context u\<rparr>) \<and>
   (\<forall>u. generate llm st = Inr u \<longrightarrow>
      (\<exists>a. u = no_update\<lparr>upd_answer := Some a\<rparr>) \<and>
      apply_update st u = st\<lparr>answer := upd_answer u\<rparr>) \<and>
   (\<forall>st'. question st' = question st \<longrightarrow> analyzeQuery llm st' = analyzeQuery llm st) \<and>
   (\<forall>st'. search st' = search st \<longrightarrow> retrieve vs st' = retrieve vs st) \<and>
   (\<forall>st'. question st' = question st \<and> context_docs st' = context_docs st \<longrightarrow>
      generate llm st' = generate llm st) \<and>
   (\<forall>q n. run_graph (graphQA llm vs) (Suc (Suc (Suc n))) (inputs q) =
     (case structuredLlm llm q of
        Inl e \<Rightarrow> ([''analyzeQuery''], Aborted e)
      | Inr s \<Rightarrow>
          (case similaritySearch vs (query s) 2
                  (Some (\<lambda>doc. doc_section (metadata doc) = Some (search_section s))) of
             Inl e \<Rightarrow> ([''analyzeQuery'', ''retrieve''], Aborted e)
           | Inr docs \<Rightarrow>
               (case invoke llm (promptTemplate q (join newline (map pageContent docs))) of
                  Inl e \<Rightarrow> ([''analyzeQuery'', ''retrieve'', ''generate''], Aborted e)
                | Inr response \<Rightarrow>
                    ([''analyzeQuery'', ''retrieve'', ''generate''],
                     Finished \<lparr>question = q, search = Some s, context_docs = Some docs,
                               answer = Some (content response)\<rparr>)))))"
proof (intro conjI allI impI)
  fix u assume "analyzeQuery llm st = Inr u"
  from analyzeQuery_frame [OF this]
  show "\<exists>s. u = no_update\<lparr>upd_search := Some s\<rparr>"
    and "apply_update st u = st\<lparr>search := upd_search u\<rparr>" by simp_all
next
  fix u assume "retrieve vs st = Inr u"
  from retrieve_frame [OF this]
  show "\<exists>docs. u = no_update\<lparr>upd_context := Some docs\<rparr>"
    and "apply_update st u = st\<lparr>context_docs := upd_context u\<rparr>" by simp_all
next
  fix u assume "generate llm st = Inr u"
  from generate_frame [OF this]
  show "\<exists>a. u = no_update\<lparr>upd_answer := Some a\<rparr>"
    and "apply_update st u = st\<lparr>answer := upd_answer u\<rparr>" by simp_all
next
  fix st' :: qa_state assume "question st' = question st"
  then show "analyzeQuery llm st' = analyzeQuery llm st" by (simp add: analyzeQuery_def)
next
  fix st' :: qa_state assume "search st' = search st"
  then show "retrieve vs st' = retrieve vs st" by (simp add: retrieve_def)
next
  fix st' :: qa_state assume "question st' = question st \<and> context_docs st' = context_docs st"
  then show "generate llm st' = generate llm st"
    by (simp add: generate_def split: option.splits)
next
  fix q n
  show "run_graph (graphQA llm vs) (Suc (Suc (Suc n))) (inputs q) =
     (case structuredLlm llm q of
        Inl e \<Rightarrow> ([''analyzeQuery''], Aborted e)
      | Inr s \<Rightarrow>
          (case similaritySearch vs (query s) 2
                  (Some (\<lambda>doc. doc_section (metadata doc) = Some (search_section s))) of
             Inl e \<Rightarrow> ([''analyzeQuery'', ''retrieve''], Aborted e)
           | Inr docs \<Rightarrow>
               (case invoke llm (promptTemplate q (join newline (map pageContent docs))) of
                  Inl e \<Rightarrow> ([''analyzeQuery'', ''retrieve'', ''generate''], Aborted e)
                | Inr response \<Rightarrow>
                    ([''analyzeQuery'', ''retrieve'', ''generate''],
                     Finished \<lparr>question = q, search = Some s, context_docs = Some docs,
                               answer = Some (content response)\<rparr>))))"
    by (rule run_graphQA_inputs)
qed

lemma structuredLlm_sample:
  "structuredLlm sample_llm ''task'' = Inr \<lparr>query = ''task'', search_section = End\<rparr>"
  by (simp add: structuredLlm_def sample_llm_def searchSchema_def section_enum_def)

lemma similaritySearch_sample_End:
  "similaritySearch sample_index ''task'' 2
     (Some (\<lambda>doc. doc_section (metadata doc) = Some End)) =
   Inr [chunk ''ddd'' End, chunk ''eeeee'' End]"
  by (simp add: similaritySearch_def sample_index_def sample_provider_def chunk_def)

lemma invoke_sample:
  "invoke sample_llm msgs = Inr (AIMessage ''It splits a task into steps. thanks for asking!'' (Some []))"
  by (simp add: sample_llm_def)

theorem workflow_steps_frame_witness:
  "analyzeQuery sample_llm (inputs ''task'') =
     Inr (no_update\<lparr>upd_search := Some \<lparr>query = ''task'', search_section = End\<rparr>\<rparr>) \<and>
   apply_update (inputs ''task'')
       (no_update\<lparr>upd_search := Some \<lparr>query = ''task'', search_section = End\<rparr>\<rparr>) =
     (inputs ''task'')\<lparr>search := Some \<lparr>query = ''task'', search_section = End\<rparr>\<rparr> \<and>
   run_graph (graphQA sample_llm sample_index) (Suc (Suc (Suc 0))) (inputs ''task'') =
     ([''analyzeQuery'', ''retrieve'', ''generate''],
      Finished \<lparr>question = ''task'',
                search = Some \<lparr>query = ''task'', search_section = End\<rparr>,
                context_docs = Some [chunk ''ddd'' End, chunk ''eeeee'' End],
                answer = Some ''It splits a task into steps. thanks for asking!''\<rparr>)"
proof -
  note w = workflow_steps_frame [of sample_llm "inputs ''task''" sample_index]
  have aq: "analyzeQuery sample_llm (inputs ''task'') =
     Inr (no_update\<lparr>upd_search := Some \<lparr>query = ''task'', search_section = End\<rparr>\<rparr>)"
    by (simp add: analyzeQuery_def inputs_def structuredLlm_sample)
  with w have fr: "apply_update (inputs ''task'')
       (no_update\<lparr>upd_search := Some \<lparr>query = ''task'', search_section = End\<rparr>\<rparr>) =
     (inputs ''task'')\<lparr>search := Some \<lparr>query = ''task'', search_section = End\<rparr>\<rparr>"
    by (simp add: no_update_def)
  from w have "run_graph (graphQA sample_llm sample_index) (Suc (Suc (Suc 0))) (inputs ''task'') =
     (case structuredLlm sample_llm ''task'' of
        Inl e \<Rightarrow> ([''analyzeQuery''], Aborted e)
      | Inr s \<Rightarrow>
          (case similaritySearch sample_index (query s) 2
                  (Some (\<lambda>doc. doc_section (metadata doc) = Some (search_section s))) of
             Inl e \<Rightarrow> ([''analyzeQuery'', ''retrieve''], Aborted e)
           | Inr docs \<Rightarrow>
               (case invoke sample_llm (promptTemplate ''task'' (join newline (map pageContent docs))) of
                  Inl e \<Rightarrow> ([''analyzeQuery'', ''retrieve'', ''generate''], Aborted e)
                | Inr response \<Rightarrow>
                    ([''analyzeQuery'', ''retrieve'', ''generate''],
                     Finished \<lparr>question = ''task'', search = Some s, context_docs = Some docs,
                               answer = Some (content response)\<rparr>))))"
    by blast
  then have run: "run_graph (graphQA sample_llm sample_index) (Suc (Suc (Suc 0))) (inputs ''task'') =
     ([''analyzeQuery'', ''retrieve'', ''generate''],
      Finished \<lparr>question = ''task'',
                search = Some \<lparr>query = ''task'', search_section = End\<rparr>,
                context_docs = Some [chunk ''ddd'' End, chunk ''eeeee'' End],
                answer = Some ''It splits a task into steps. thanks for asking!''\<rparr>)"
    by (simp add: structuredLlm_sample similaritySearch_sample_End invoke_sample)
  from aq fr run show ?thesis by blast
qed

section \<open>Properties of the tool-calling step generate\<close>

lemma scan_back_takeWhile:
  "n \<le> length msgs \<Longrightarrow>
     scan_back msgs n recent = recent @ takeWhile isToolMessage (rev (take n msgs))"
proof (induction n arbitrary: recent)
  case 0
  then show ?case by simp
next
  case (Suc i)
  then have i: "i < length msgs" by simp
  then have "rev (take (Suc i) msgs) = msgs ! i # rev (take i msgs)"
    by (simp add: take_Suc_conv_app_nth)
  with Suc show ?case by simp
qed

lemma recentToolMessages_takeWhile:
  "recentToolMessages msgs = takeWhile isToolMessage (rev msgs)"
  by (simp add: recentToolMessages_def scan_back_takeWhile)

lemma toolMessages_trailing: "toolMessages msgs = trailing_tool_messages msgs"
  by (simp add: toolMessages_def trailing_tool_messages_def recentToolMessages_takeWhile)

lemma trailing_split:
  "\<exists>pre. msgs = pre @ trailing_tool_messages msgs \<and> (pre = [] \<or> \<not> isToolMessage (last pre))"
proof -
  let ?pre = "rev (dropWhile isToolMessage (rev msgs))"
  have "rev (takeWhile isToolMessage (rev msgs) @ dropWhile isToolMessage (rev msgs)) = msgs"
    by (simp only: takeWhile_dropWhile_id rev_rev_ident)
  then have 1: "msgs = ?pre @ trailing_tool_messages msgs"
    by (simp only: rev_append trailing_tool_messages_def)
  have 2: "?pre = [] \<or> \<not> isToolMessage (last ?pre)"
  proof (cases "dropWhile isToolMessage (rev msgs)")
    case Nil
    then show ?thesis by simp
  next
    case (Cons x xs)
    then have "\<not> isToolMessage x" by (metis hd_dropWhile list.distinct(1) list.sel(1))
    with Cons show ?thesis by simp
  qed
  from 1 2 show ?thesis by blast
qed

lemma trailing_all_tool: "m \<in> set (trailing_tool_messages msgs) \<Longrightarrow> isToolMessage m"
  by (auto simp: trailing_tool_messages_def dest: set_takeWhileD)

lemma trailing_maximal:
  assumes "suffix ts msgs" and "\<forall>m \<in> set ts. isToolMessage m"
  shows "suffix ts (trailing_tool_messages msgs)"
proof -
  from assms(1) obtain xs where msgs: "msgs = xs @ ts" by (auto simp: suffix_def)
  have "takeWhile isToolMessage (rev ts @ rev xs) = rev ts @ takeWhile isToolMessage (rev xs)"
    by (rule takeWhile_append2) (use assms(2) in simp)
  then have "trailing_tool_messages msgs = rev (takeWhile isToolMessage (rev xs)) @ ts"
    by (simp add: trailing_tool_messages_def msgs)
  then show ?thesis by (simp add: suffix_def)
qed

text \<open>
  Claim C5. For every message list, the step \<^verbatim>\<open>generate\<close> of the tool-calling
  variants takes its retrieved context from exactly the maximal contiguous
  suffix of tool messages: the list its backward loop collects and reverses is
  the one the specification describes; it is a suffix of the message list made
  of tool messages only, the message before it (if any) is not a tool message,
  and every suffix made of tool messages only is a suffix of it. The context
  string joins the contents of these messages, in their original order, with
  newlines, and is what the system message sent to the model ends with.
\<close>

theorem generate_context_is_trailing_tool_messages:
  "toolMessages msgs = trailing_tool_messages msgs \<and>
   (\<exists>pre. msgs = pre @ toolMessages msgs \<and> (pre = [] \<or> \<not> isToolMessage (last pre))) \<and>
   (\<forall>m \<in> set (toolMessages msgs). isToolMessage m) \<and>
   (\<forall>ts. suffix ts msgs \<and> (\<forall>m \<in> set ts. isToolMessage m) \<longrightarrow> suffix ts (toolMessages msgs)) \<and>
   docsContent msgs = join newline (map content (trailing_tool_messages msgs)) \<and>
   (\<forall>llm.
      generate_tc llm \<lparr>messages = msgs\<rparr> =
        (case invoke llm
                (SystemMessage (instructions @ newline @ newline @
                                join newline (map content (trailing_tool_messages msgs)))
                 # conversationMessages msgs) of
           Inl e \<Rightarrow> Inl e
         | Inr response \<Rightarrow> Inr \<lparr>messages = [response]\<rparr>))"
proof (intro conjI)
  show "toolMessages msgs = trailing_tool_messages msgs" by (rule toolMessages_trailing)
  show "\<exists>pre. msgs = pre @ toolMessages msgs \<and> (pre = [] \<or> \<not> isToolMessage (last pre))"
    using trailing_split [of msgs] by (simp add: toolMessages_trailing)
  show "\<forall>m \<in> set (toolMessages msgs). isToolMessage m"
    by (simp add: toolMessages_trailing trailing_all_tool)
  show "\<forall>ts. suffix ts msgs \<and> (\<forall>m \<in> set ts. isToolMessage m) \<longrightarrow> suffix ts (toolMessages msgs)"
    by (simp add: toolMessages_trailing trailing_maximal)
  show "docsContent msgs = join newline (map content (trailing_tool_messages msgs))"
    by (simp add: docsContent_def toolMessages_trailing)
  show "\<forall>llm.
      generate_tc llm \<lparr>messages = msgs\<rparr> =
        (case invoke llm
                (SystemMessage (instructions @ newline @ newline @
                                join newline (map content (trailing_tool_messages msgs)))
                 # conversationMessages msgs) of
           Inl e \<Rightarrow> Inl e
         | Inr response \<Rightarrow> Inr \<lparr>messages = [response]\<rparr>)"
    by (simp add: generate_tc_def prompt_def systemMessageContent_def docsContent_def
        toolMessages_trailing)
qed

lemma trailing_sample:
  "trailing_tool_messages sample_messages =
     [ToolMessage ''context A'' ''2'' [], ToolMessage ''context B'' ''3'' []]"
  by (simp add: trailing_tool_messages_def sample_messages_def isToolMessage_def)

theorem generate_context_is_trailing_tool_messages_witness:
  "toolMessages sample_messages =
     [ToolMessage ''context A'' ''2'' [], ToolMessage ''context B'' ''3'' []] \<and>
   suffix [ToolMessage ''context B'' ''3'' []] sample_messages \<and>
   isToolMessage (ToolMessage ''context B'' ''3'' []) \<and>
   suffix [ToolMessage ''context B'' ''3'' []] (toolMessages sample_messages) \<and>
   docsContent sample_messages = ''context A'' @ newline @ ''context B''"
proof -
  note t = generate_context_is_trailing_tool_messages [of sample_messages]
  from t have 1: "toolMessages sample_messages =
     [ToolMessage ''context A'' ''2'' [], ToolMessage ''context B'' ''3'' []]"
    by (simp add: trailing_sample)
  have 2: "suffix [ToolMessage ''context B'' ''3'' []] sample_messages"
    by (simp add: suffix_def sample_messages_def)
  have 3: "isToolMessage (ToolMessage ''context B'' ''3'' [])"
    by (simp add: isToolMessage_def)
  from t have "suffix ts sample_messages \<and> (\<forall>m \<in> set ts. isToolMessage m) \<longrightarrow>
      suffix ts (toolMessages sample_messages)" for ts by blast
  from this [of "[ToolMessage ''context B'' ''3'' []]"] 2 3
  have 4: "suffix [ToolMessage ''context B'' ''3'' []] (toolMessages sample_messages)"
    by simp
  from t have 5: "docsContent sample_messages = ''context A'' @ newline @ ''context B''"
    by (simp add: trailing_sample)
  from 1 2 3 4 5 show ?thesis by blast
qed

lemma is_conversation_iff:
  "is_conversation m \<longleftrightarrow>
     (\<exists>c. m = HumanMessage c) \<or> (\<exists>c. m = SystemMessage c) \<or> (\<exists>c. m = AIMessage c (Some []))"
  by (cases m) (auto simp: is_conversation_def split: option.splits)

text \<open>
  Claim C6. For every message list, the conversation history the step
  \<^verbatim>\<open>generate\<close> passes to the model after its system message is the message
  list restricted, in order, to the human messages, the system messages and
  the AI messages whose tool-call list is empty. In particular no AI message
  that issued a tool call and no tool message is part of it.
\<close>

theorem generate_conversation_history:
  "conversationMessages msgs =
     filter (\<lambda>m. (\<exists>c. m = HumanMessage c) \<or> (\<exists>c. m = SystemMessage c) \<or>
                  (\<exists>c. m = AIMessage c (Some []))) msgs \<and>
   (\<forall>c tc tcs. AIMessage c (Some (tc # tcs)) \<notin> set (conversationMessages msgs)) \<and>
   (\<forall>c i a. ToolMessage c i a \<notin> set (conversationMessages msgs)) \<and>
   (\<forall>llm. generate_tc llm \<lparr>messages = msgs\<rparr> =
      (case invoke llm (SystemMessage (systemMessageContent msgs) # conversationMessages msgs) of
         Inl e \<Rightarrow> Inl e
       | Inr response \<Rightarrow> Inr \<lparr>messages = [response]\<rparr>))"
proof (intro conjI allI)
  show "conversationMessages msgs =
     filter (\<lambda>m. (\<exists>c. m = HumanMessage c) \<or> (\<exists>c. m = SystemMessage c) \<or>
                  (\<exists>c. m = AIMessage c (Some []))) msgs"
    unfolding conversationMessages_def
    by (rule filter_cong) (simp_all add: is_conversation_iff)
  show "AIMessage c (Some (tc # tcs)) \<notin> set (conversationMessages msgs)" for c tc tcs
    by (simp add: conversationMessages_def is_conversation_def)
  show "ToolMessage c i a \<notin> set (conversationMessages msgs)" for c i a
    by (simp add: conversationMessages_def is_conversation_def)
  show "generate_tc llm \<lparr>messages = msgs\<rparr> =
      (case invoke llm (SystemMessage (systemMessageContent msgs) # conversationMessages msgs) of
         Inl e \<Rightarrow> Inl e
       | Inr response \<Rightarrow> Inr \<lparr>messages = [response]\<rparr>)" for llm
    by (simp add: generate_tc_def prompt_def)
qed

lemma conversation_sample:
  "conversationMessages sample_messages =
     [HumanMessage ''What is Task Decomposition?'',
      AIMessage ''It splits a task into steps.'' (Some []),
      HumanMessage ''Can you look up some common ways of doing it?'']"
  by (simp add: conversationMessages_def sample_messages_def is_conversation_def)

theorem generate_conversation_history_witness:
  "conversationMessages sample_messages =
     [HumanMessage ''What is Task Decomposition?'',
      AIMessage ''It splits a task into steps.'' (Some []),
      HumanMessage ''Can you look up some common ways of doing it?''] \<and>
   AIMessage [] (Some [retrieve_call ''1'' ''task decomposition'']) \<in> set sample_messages \<and>
   AIMessage [] (Some [retrieve_call ''1'' ''task decomposition''])
     \<notin> set (conversationMessages sample_messages) \<and>
   generate_tc sample_llm \<lparr>messages = sample_messages\<rparr> =
     Inr \<lparr>messages = [AIMessage ''It splits a task into steps. thanks for asking!'' (Some [])]\<rparr>"
proof -
  note t = generate_conversation_history [of sample_messages]
  have 1: "AIMessage [] (Some [retrieve_call ''1'' ''task decomposition'']) \<in> set sample_messages"
    by (simp add: sample_messages_def)
  from t have 2: "AIMessage [] (Some [retrieve_call ''1'' ''task decomposition''])
     \<notin> set (conversationMessages sample_messages)" by blast
  from t have 3: "generate_tc sample_llm \<lparr>messages = sample_messages\<rparr> =
     Inr \<lparr>messages = [AIMessage ''It splits a task into steps. thanks for asking!'' (Some [])]\<rparr>"
    by (simp add: sample_llm_def)
  from conversation_sample 1 2 3 show ?thesis by blast
qed

section \<open>Properties of the tool-calling graph\<close>

lemma toolsCondition_cases:
  "toolsCondition st =
     (if messages st \<noteq> [] \<and> has_tool_call (last (messages st)) then ''tools'' else ''__end__'')"
  by (cases "messages st") (simp_all add: toolsCondition_def)

lemma toolsCondition_range: "toolsCondition st = ''tools'' \<or> toolsCondition st = ''__end__''"
  by (simp add: toolsCondition_cases)

lemma pathMap_toolsCondition:
  "map_of [(''__end__'', ''__end__''), (''tools'', ''tools'')] (toolsCondition st) =
     Some (toolsCondition st)"
  using toolsCondition_range [of st] by auto

lemma edges_graphBuilder:
  "edges (graphBuilder llm tools) =
     [(''__start__'', ''queryOrRespond''), (''tools'', ''generate''), (''generate'', ''__end__'')]"
  "conditional_edges (graphBuilder llm tools) =
     [(''queryOrRespond'', toolsCondition, [(''__end__'', ''__end__''), (''tools'', ''tools'')])]"
  by (simp_all add: graphBuilder_def StateGraph_def addNode_def addEdge_def addConditionalEdges_def)

lemma successors_graphBuilder:
  "successors (graphBuilder llm tools) st ''__start__'' = [''queryOrRespond'']"
  "successors (graphBuilder llm tools) st ''queryOrRespond'' = [toolsCondition st]"
  "successors (graphBuilder llm tools) st ''tools'' = [''generate'']"
  "successors (graphBuilder llm tools) st ''generate'' = [''__end__'']"
  by (simp_all add: successors_def edges_graphBuilder pathMap_toolsCondition del: map_of.simps)

lemma successors_graphBuilder_other:
  assumes "n \<noteq> ''__start__''" "n \<noteq> ''queryOrRespond''" "n \<noteq> ''tools''" "n \<noteq> ''generate''"
  shows "successors (graphBuilder llm tools) st n = []"
  using assms by (simp add: successors_def edges_graphBuilder del: map_of.simps)

lemma toolsCondition_after_response:
  "toolsCondition (messagesStateReducer st \<lparr>messages = [response]\<rparr>) =
     (if has_tool_call response then ''tools'' else ''__end__'')"
  by (simp add: toolsCondition_cases messagesStateReducer_def)

lemma toolsCondition_onto:
  "(\<exists>st. m = toolsCondition st) \<longleftrightarrow> m = ''tools'' \<or> m = ''__end__''"
proof
  assume "\<exists>st. m = toolsCondition st"
  then show "m = ''tools'' \<or> m = ''__end__''" using toolsCondition_range by auto
next
  assume "m = ''tools'' \<or> m = ''__end__''"
  then show "\<exists>st. m = toolsCondition st"
  proof
    assume "m = ''tools''"
    then have "m = toolsCondition
      \<lparr>messages = [AIMessage [] (Some [\<lparr>tc_name = ''retrieve'', tc_args = [], tc_id = []\<rparr>])]\<rparr>"
      by (simp add: toolsCondition_cases has_tool_call_def)
    then show ?thesis by (rule exI)
  next
    assume "m = ''__end__''"
    then have "m = toolsCondition \<lparr>messages = []\<rparr>" by (simp add: toolsCondition_cases)
    then show ?thesis by (rule exI)
  qed
qed

lemma transitions_graphBuilder_iff:
  "(n, m) \<in> transitions (graphBuilder llm tools) \<longleftrightarrow>
     (n, m) = (''__start__'', ''queryOrRespond'') \<or>
     (n, m) = (''queryOrRespond'', ''tools'') \<or>
     (n, m) = (''queryOrRespond'', ''__end__'') \<or>
     (n, m) = (''tools'', ''generate'') \<or>
     (n, m) = (''generate'', ''__end__'')"
proof -
  have tr: "(n', m) \<in> transitions (graphBuilder llm tools) \<longleftrightarrow>
        (\<exists>st. m \<in> set (successors (graphBuilder llm tools) st n'))" for n'
    by (simp add: transitions_def)
  consider (start) "n = ''__start__''" | (qor) "n = ''queryOrRespond''" | (tools) "n = ''tools''"
    | (generate) "n = ''generate''"
    | (other) "n \<noteq> ''__start__''" "n \<noteq> ''queryOrRespond''" "n \<noteq> ''tools''" "n \<noteq> ''generate''"
    by blast
  then show ?thesis
  proof cases
    case start
    then show ?thesis by (simp add: tr successors_graphBuilder)
  next
    case qor
    have "(\<exists>st. m = toolsCondition st) \<longleftrightarrow> m = ''tools'' \<or> m = ''__end__''"
      by (rule toolsCondition_onto)
    with qor show ?thesis by (simp add: tr successors_graphBuilder)
  next
    case tools
    then show ?thesis by (simp add: tr successors_graphBuilder)
  next
    case generate
    then show ?thesis by (simp add: tr successors_graphBuilder)
  next
    case other
    then show ?thesis by (simp add: tr successors_graphBuilder_other)
  qed
qed

lemma transitions_graphBuilder:
  "transitions (graphBuilder llm tools) =
     {(''__start__'', ''queryOrRespond''), (''queryOrRespond'', ''tools''),
      (''queryOrRespond'', ''__end__''), (''tools'', ''generate''), (''generate'', ''__end__'')}"
proof (rule set_eqI)
  fix x :: "string \<times> string"
  obtain n m where x: "x = (n, m)" by (cases x)
  show "x \<in> transitions (graphBuilder llm tools) \<longleftrightarrow>
        x \<in> {(''__start__'', ''queryOrRespond''), (''queryOrRespond'', ''tools''),
      (''queryOrRespond'', ''__end__''), (''tools'', ''generate''), (''generate'', ''__end__'')}"
    by (simp only: x transitions_graphBuilder_iff insert_iff empty_iff simp_thms)
qed

lemma transitions_rank:
  "(n, m) \<in> transitions (graphBuilder llm tools) \<Longrightarrow> rank n < rank m"
  unfolding transitions_graphBuilder_iff by (elim disjE) (simp_all add: rank_def)

lemma trancl_rank:
  "(n, m) \<in> (transitions (graphBuilder llm tools))\<^sup>+ \<Longrightarrow> rank n < rank m"
proof (induction rule: trancl.induct)
  case (r_into_trancl a b)
  then show ?case by (rule transitions_rank)
next
  case (trancl_into_trancl a b c)
  from trancl_into_trancl.IH transitions_rank [OF trancl_into_trancl.hyps(2)]
  show ?case by simp
qed

lemma graphBuilder_acyclic: "(n, n) \<notin> (transitions (graphBuilder llm tools))\<^sup>+"
  using trancl_rank [of n n llm tools] by auto

lemma nodes_graphBuilder:
  "map_of (nodes (graphBuilder llm tools)) ''queryOrRespond'' = Some (queryOrRespond llm)"
  "map_of (nodes (graphBuilder llm tools)) ''tools'' = Some tools"
  "map_of (nodes (graphBuilder llm tools)) ''generate'' = Some (generate_tc llm)"
  "reducer (graphBuilder llm tools) = messagesStateReducer"
  by (simp_all add: graphBuilder_def StateGraph_def addNode_def addEdge_def addConditionalEdges_def)

lemma run_generate_tc:
  "run_from (graphBuilder llm tools) (Suc n) ''generate'' st =
     (case generate_tc llm st of
        Inl e \<Rightarrow> ([''generate''], Aborted e)
      | Inr u \<Rightarrow> ([''generate''], Finished (messagesStateReducer st u)))"
  by (simp add: run_from_end successors_graphBuilder nodes_graphBuilder split: sum.splits)

lemma run_tools:
  "run_from (graphBuilder llm tools) (Suc (Suc n)) ''tools'' st =
     (case tools st of
        Inl e \<Rightarrow> ([''tools''], Aborted e)
      | Inr u \<Rightarrow>
          (case generate_tc llm (messagesStateReducer st u) of
             Inl e \<Rightarrow> ([''tools'', ''generate''], Aborted e)
           | Inr u' \<Rightarrow>
               ([''tools'', ''generate''],
                Finished (messagesStateReducer (messagesStateReducer st u) u'))))"
proof -
  have "run_from (graphBuilder llm tools) (Suc (Suc n)) ''tools'' st =
     (case tools st of
        Inl e \<Rightarrow> ([''tools''], Aborted e)
      | Inr u \<Rightarrow>
          (let (ran, out) = run_from (graphBuilder llm tools) (Suc n) ''generate''
                              (messagesStateReducer st u)
           in (''tools'' # ran, out)))"
    by (simp add: successors_graphBuilder nodes_graphBuilder split: sum.splits
        del: run_from.simps add: run_from.simps(2) [of _ "Suc n"])
  then show ?thesis
    by (simp only: run_generate_tc) (simp split: sum.splits)
qed

lemma run_graphBuilder:
  "run_graph (graphBuilder llm tools) (Suc (Suc (Suc n))) st =
     (case invokeWithTools llm (messages st) of
        Inl e \<Rightarrow> ([''queryOrRespond''], Aborted e)
      | Inr response \<Rightarrow>
          (if has_tool_call response then
             (case tools \<lparr>messages = messages st @ [response]\<rparr> of
                Inl e \<Rightarrow> ([''queryOrRespond'', ''tools''], Aborted e)
              | Inr u \<Rightarrow>
                  (case generate_tc llm \<lparr>messages = (messages st @ [response]) @ messages u\<rparr> of
                     Inl e \<Rightarrow> ([''queryOrRespond'', ''tools'', ''generate''], Aborted e)
                   | Inr u' \<Rightarrow>
                       ([''queryOrRespond'', ''tools'', ''generate''],
                        Finished \<lparr>messages =
                          ((messages st @ [response]) @ messages u) @ messages u'\<rparr>)))
           else ([''queryOrRespond''], Finished \<lparr>messages = messages st @ [response]\<rparr>)))"
proof (cases "invokeWithTools llm (messages st)")
  case (Inl e)
  then show ?thesis
    by (simp add: run_graph_def successors_graphBuilder nodes_graphBuilder queryOrRespond_def)
next
  case (Inr response)
  let ?st1 = "\<lparr>messages = messages st @ [response]\<rparr>"
  have q: "queryOrRespond llm st = Inr \<lparr>messages = [response]\<rparr>"
    by (simp add: queryOrRespond_def Inr)
  have r: "messagesStateReducer st \<lparr>messages = [response]\<rparr> = ?st1"
    by (simp add: messagesStateReducer_def)
  have c: "toolsCondition ?st1 = (if has_tool_call response then ''tools'' else ''__end__'')"
    using toolsCondition_after_response [of st response] by (simp only: r)
  have "run_graph (graphBuilder llm tools) (Suc (Suc (Suc n))) st =
        (let (ran, out) = run_from (graphBuilder llm tools) (Suc (Suc n)) (toolsCondition ?st1) ?st1
         in (''queryOrRespond'' # ran, out))"
    by (simp add: run_graph_def successors_graphBuilder nodes_graphBuilder q r Let_def
        del: run_from.simps add: run_from.simps(2) [of _ "Suc (Suc n)"])
  then show ?thesis
    by (simp only: c Inr) (simp add: run_tools run_from_end messagesStateReducer_def
      split: sum.splits del: run_from.simps)
qed

lemma successors_in_transitions:
  "m \<in> set (successors g st n) \<Longrightarrow> (n, m) \<in> transitions g"
  by (auto simp: transitions_def)

lemma run_from_ranked:
  "(\<forall>x \<in> set (fst (run_from (graphBuilder llm tools) budget n st)). rank n \<le> rank x) \<and>
   distinct (fst (run_from (graphBuilder llm tools) budget n st))"
proof (induction budget arbitrary: n st)
  case 0
  show ?case by simp
next
  case (Suc b)
  let ?g = "graphBuilder llm tools"
  show ?case
  proof (cases "n = ''__end__''")
    case True
    then show ?thesis by simp
  next
    case not_end: False
    show ?thesis
    proof (cases "map_of (nodes ?g) n")
      case None
      with not_end show ?thesis by simp
    next
      case (Some action)
      show ?thesis
      proof (cases "action st")
        case (Inl e)
        with not_end Some show ?thesis by simp
      next
        case (Inr u)
        let ?st' = "reducer ?g st u"
        show ?thesis
        proof (cases "\<exists>m. successors ?g ?st' n = [m]")
          case True
          then obtain m where m: "successors ?g ?st' n = [m]" by blast
          then have "(n, m) \<in> transitions ?g"
            by (intro successors_in_transitions [of m ?g ?st' n]) simp
          then have lt: "rank n < rank m" by (rule transitions_rank)
          obtain ran out where r: "run_from ?g b m ?st' = (ran, out)"
            by (cases "run_from ?g b m ?st'")
          from Suc.IH [of m ?st'] r
          have ih: "\<forall>x \<in> set ran. rank m \<le> rank x" "distinct ran" by simp_all
          from ih(1) lt have "n \<notin> set ran" by auto
          moreover have "run_from ?g (Suc b) n st = (n # ran, out)"
            using not_end Some Inr m r by simp
          ultimately show ?thesis using ih lt by auto
        next
          case False
          then have "run_from ?g (Suc b) n st = ([n], Aborted (GraphError n))"
            using not_end Some Inr by (simp add: Let_def split: list.splits)
          then show ?thesis by simp
        qed
      qed
    qed
  qed
qed

lemma run_graphBuilder_distinct:
  "distinct (fst (run_graph (graphBuilder llm tools) budget st))"
  by (simp add: run_graph_def successors_graphBuilder run_from_ranked)

text \<open>
  Claim C4. In the tool-calling graph (built the same way with and without the
  checkpointer) the entry edge makes \<^verbatim>\<open>queryOrRespond\<close> the initial step. From
  \<^verbatim>\<open>queryOrRespond\<close> the next step is \<^verbatim>\<open>tools\<close> if the last message, the
  model's response, contains a tool-call request, and the terminal otherwise;
  \<^verbatim>\<open>tools\<close> always goes to \<^verbatim>\<open>generate\<close> and \<^verbatim>\<open>generate\<close> always to the
  terminal. There are no other transitions, no step can be reached from
  itself, no run executes a step twice, and a run with a budget of three steps
  ends (finished or aborted by a step's error) after \<^verbatim>\<open>queryOrRespond\<close> alone
  or after \<^verbatim>\<open>queryOrRespond\<close>, \<^verbatim>\<open>tools\<close>, \<^verbatim>\<open>generate\<close>.
\<close>

theorem tool_graph_transitions:
  "successors (graphBuilder llm tools) st ''__start__'' = [''queryOrRespond''] \<and>
   successors (graphBuilder llm tools) st ''queryOrRespond'' =
     [if messages st \<noteq> [] \<and> has_tool_call (last (messages st)) then ''tools'' else ''__end__''] \<and>
   (\<forall>response.
      successors (graphBuilder llm tools) (messagesStateReducer st \<lparr>messages = [response]\<rparr>)
          ''queryOrRespond'' =
        [if has_tool_call response then ''tools'' else ''__end__'']) \<and>
   successors (graphBuilder llm tools) st ''tools'' = [''generate''] \<and>
   successors (graphBuilder llm tools) st ''generate'' = [''__end__''] \<and>
   transitions (graphBuilder llm tools) =
     {(''__start__'', ''queryOrRespond''), (''queryOrRespond'', ''tools''),
      (''queryOrRespond'', ''__end__''), (''tools'', ''generate''), (''generate'', ''__end__'')} \<and>
   (\<forall>n. (n, n) \<notin> (transitions (graphBuilder llm tools))\<^sup>+) \<and>
   (\<forall>budget. distinct (fst (run_graph (graphBuilder llm tools) budget st))) \<and>
   (\<forall>n. run_graph (graphBuilder llm tools) (Suc (Suc (Suc n))) st =
     (case invokeWithTools llm (messages st) of
        Inl e \<Rightarrow> ([''queryOrRespond''], Aborted e)
      | Inr response \<Rightarrow>
          (if has_tool_call response then
             (case tools \<lparr>messages = messages st @ [response]\<rparr> of
                Inl e \<Rightarrow> ([''queryOrRespond'', ''tools''], Aborted e)
              | Inr u \<Rightarrow>
                  (case generate_tc llm \<lparr>messages = (messages st @ [response]) @ messages u\<rparr> of
                     Inl e \<Rightarrow> ([''queryOrRespond'', ''tools'', ''generate''], Aborted e)
                   | Inr u' \<Rightarrow>
                       ([''queryOrRespond'', ''tools'', ''generate''],
                        Finished \<lparr>messages =
                          ((messages st @ [response]) @ messages u) @ messages u'\<rparr>)))
           else ([''queryOrRespond''], Finished \<lparr>messages = messages st @ [response]\<rparr>))))"
proof (intro conjI allI)
  show "successors (graphBuilder llm tools) st ''__start__'' = [''queryOrRespond'']"
    by (rule successors_graphBuilder)
  show "successors (graphBuilder llm tools) st ''queryOrRespond'' =
     [if messages st \<noteq> [] \<and> has_tool_call (last (messages st)) then ''tools'' else ''__end__'']"
    by (simp only: successors_graphBuilder toolsCondition_cases)
  show "successors (graphBuilder llm tools) (messagesStateReducer st \<lparr>messages = [response]\<rparr>)
          ''queryOrRespond'' =
        [if has_tool_call response then ''tools'' else ''__end__'']" for response
    by (simp only: successors_graphBuilder toolsCondition_after_response)
  show "successors (graphBuilder llm tools) st ''tools'' = [''generate'']"
    by (rule successors_graphBuilder)
  show "successors (graphBuilder llm tools) st ''generate'' = [''__end__'']"
    by (rule successors_graphBuilder)
  show "transitions (graphBuilder llm tools) =
     {(''__start__'', ''queryOrRespond''), (''queryOrRespond'', ''tools''),
      (''queryOrRespond'', ''__end__''), (''tools'', ''generate''), (''generate'', ''__end__'')}"
    by (rule transitions_graphBuilder)
  show "(n, n) \<notin> (transitions (graphBuilder llm tools))\<^sup>+" for n
    by (rule graphBuilder_acyclic)
  show "distinct (fst (run_graph (graphBuilder llm tools) budget st))" for budget
    by (rule run_graphBuilder_distinct)
  show "run_graph (graphBuilder llm tools) (Suc (Suc (Suc n))) st =
     (case invokeWithTools llm (messages st) of
        Inl e \<Rightarrow> ([''queryOrRespond''], Aborted e)
      | Inr response \<Rightarrow>
          (if has_tool_call response then
             (case tools \<lparr>messages = messages st @ [response]\<rparr> of
                Inl e \<Rightarrow> ([''queryOrRespond'', ''tools''], Aborted e)
              | Inr u \<Rightarrow>
                  (case generate_tc llm \<lparr>messages = (messages st @ [response]) @ messages u\<rparr> of
                     Inl e \<Rightarrow> ([''queryOrRespond'', ''tools'', ''generate''], Aborted e)
                   | Inr u' \<Rightarrow>
                       ([''queryOrRespond'', ''tools'', ''generate''],
                        Finished \<lparr>messages =
                          ((messages st @ [response]) @ messages u) @ messages u'\<rparr>)))
           else ([''queryOrRespond''], Finished \<lparr>messages = messages st @ [response]\<rparr>)))" for n
    by (rule run_graphBuilder)
qed

theorem tool_graph_transitions_witness:
  "has_tool_call (AIMessage [] (Some [retrieve_call ''1'' ''task''])) \<and>
   successors (graphBuilder tool_llm sample_tools)
       (messagesStateReducer hello \<lparr>messages = [AIMessage [] (Some [retrieve_call ''1'' ''task''])]\<rparr>)
       ''queryOrRespond'' = [''tools''] \<and>
   fst (run_graph (graphBuilder tool_llm sample_tools) (Suc (Suc (Suc 0))) hello) =
     [''queryOrRespond'', ''tools'', ''generate''] \<and>
   run_graph (graphBuilder sample_llm sample_tools) (Suc (Suc (Suc 0))) hello =
     ([''queryOrRespond''],
      Finished \<lparr>messages = [HumanMessage ''hello'', AIMessage ''Hello!'' (Some [])]\<rparr>)"
proof -
  have h: "has_tool_call (AIMessage [] (Some [retrieve_call ''1'' ''task'']))"
    by (simp add: has_tool_call_def)
  note t = tool_graph_transitions [of tool_llm sample_tools hello]
  from t h have 1: "successors (graphBuilder tool_llm sample_tools)
       (messagesStateReducer hello \<lparr>messages = [AIMessage [] (Some [retrieve_call ''1'' ''task''])]\<rparr>)
       ''queryOrRespond'' = [''tools'']"
    by simp
  have w: "invokeWithTools tool_llm (messages hello) =
      Inr (AIMessage [] (Some [retrieve_call ''1'' ''task'']))"
    by (simp add: tool_llm_def)
  have s: "\<exists>u. sample_tools st = Inr u" for st
    by (simp add: sample_tools_def retrieve_tc_sample)
  from s obtain u where u: "sample_tools
      \<lparr>messages = messages hello @ [AIMessage [] (Some [retrieve_call ''1'' ''task''])]\<rparr> = Inr u"
    by blast
  from t have "run_graph (graphBuilder tool_llm sample_tools) (Suc (Suc (Suc 0))) hello =
     (case invokeWithTools tool_llm (messages hello) of
        Inl e \<Rightarrow> ([''queryOrRespond''], Aborted e)
      | Inr response \<Rightarrow>
          (if has_tool_call response then
             (case sample_tools \<lparr>messages = messages hello @ [response]\<rparr> of
                Inl e \<Rightarrow> ([''queryOrRespond'', ''tools''], Aborted e)
              | Inr u \<Rightarrow>
                  (case generate_tc tool_llm \<lparr>messages = (messages hello @ [response]) @ messages u\<rparr> of
                     Inl e \<Rightarrow> ([''queryOrRespond'', ''tools'', ''generate''], Aborted e)
                   | Inr u' \<Rightarrow>
                       ([''queryOrRespond'', ''tools'', ''generate''],
                        Finished \<lparr>messages =
                          ((messages hello @ [response]) @ messages u) @ messages u'\<rparr>)))
           else ([''queryOrRespond''], Finished \<lparr>messages = messages hello @ [response]\<rparr>)))"
    by blast
  then have 2: "fst (run_graph (graphBuilder tool_llm sample_tools) (Suc (Suc (Suc 0))) hello) =
     [''queryOrRespond'', ''tools'', ''generate'']"
    by (simp add: w h u split: sum.splits)
  note t' = tool_graph_transitions [of sample_llm sample_tools hello]
  have n: "\<not> has_tool_call (AIMessage ''Hello!'' (Some []))"
    by (simp add: has_tool_call_def)
  from t' have "run_graph (graphBuilder sample_llm sample_tools) (Suc (Suc (Suc 0))) hello =
     (case invokeWithTools sample_llm (messages hello) of
        Inl e \<Rightarrow> ([''queryOrRespond''], Aborted e)
      | Inr response \<Rightarrow>
          (if has_tool_call response then
             (case sample_tools \<lparr>messages = messages hello @ [response]\<rparr> of
                Inl e \<Rightarrow> ([''queryOrRespond'', ''tools''], Aborted e)
              | Inr u \<Rightarrow>
                  (case generate_tc sample_llm \<lparr>messages = (messages hello @ [response]) @ messages u\<rparr> of
                     Inl e \<Rightarrow> ([''queryOrRespond'', ''tools'', ''generate''], Aborted e)
                   | Inr u' \<Rightarrow>
                       ([''queryOrRespond'', ''tools'', ''generate''],
                        Finished \<lparr>messages =
                          ((messages hello @ [response]) @ messages u) @ messages u'\<rparr>)))
           else ([''queryOrRespond''], Finished \<lparr>messages = messages hello @ [response]\<rparr>)))"
    by blast
  then have 3: "run_graph (graphBuilder sample_llm sample_tools) (Suc (Suc (Suc 0))) hello =
     ([''queryOrRespond''],
      Finished \<lparr>messages = [HumanMessage ''hello'', AIMessage ''Hello!'' (Some [])]\<rparr>)"
    using n by (simp add: sample_llm_def hello_def)
  from h 1 2 3 show ?thesis by blast
qed

section \<open>Properties of the provider accessors\<close>

lemma getLlm_cases:
  "getLlm env m =
     (case llm_var m of
        Some r \<Rightarrow> (Inr r, m)
      | None \<Rightarrow>
          (case map_of env ''ANTHROPIC_API_KEY'' of
             None \<Rightarrow> (Inl (ConfigurationError ''ANTHROPIC_API_KEY''), m)
           | Some k \<Rightarrow>
               (Inr (length (heap m)),
                m\<lparr>heap := heap m @ [ChatAnthropic ''claude-3-7-sonnet-20250219'' 0 k],
                  llm_var := Some (length (heap m))\<rparr>)))"
  by (simp add: getLlm_def new_ChatAnthropic_def allocate_def split: option.splits)

lemma getEmbeddings_cases:
  "getEmbeddings env m =
     (case embeddings_var m of
        Some r \<Rightarrow> (Inr r, m)
      | None \<Rightarrow>
          (case map_of env ''COHERE_API_KEY'' of
             None \<Rightarrow> (Inl (ConfigurationError ''COHERE_API_KEY''), m)
           | Some k \<Rightarrow>
               (Inr (length (heap m)),
                m\<lparr>heap := heap m @ [CohereEmbeddings ''embed-english-v3.0''],
                  embeddings_var := Some (length (heap m))\<rparr>)))"
  by (simp add: getEmbeddings_def new_CohereEmbeddings_def allocate_def split: option.splits)

lemma getVectorStore_cases:
  "getVectorStore env m =
     (case vectorStore_var m of
        Some r \<Rightarrow> (Inr r, m)
      | None \<Rightarrow>
          (case embeddings_var m of
             Some e \<Rightarrow>
               (Inr (length (heap m)),
                m\<lparr>heap := heap m @ [MemoryVectorStore e],
                  vectorStore_var := Some (length (heap m))\<rparr>)
           | None \<Rightarrow>
               (case map_of env ''COHERE_API_KEY'' of
                  None \<Rightarrow> (Inl (ConfigurationError ''COHERE_API_KEY''), m)
                | Some k \<Rightarrow>
                    (Inr (Suc (length (heap m))),
                     m\<lparr>heap := heap m @ [CohereEmbeddings ''embed-english-v3.0'',
                                            MemoryVectorStore (length (heap m))],
                       embeddings_var := Some (length (heap m)),
                       vectorStore_var := Some (Suc (length (heap m)))\<rparr>))))"
  by (simp add: getVectorStore_def getEmbeddings_cases new_MemoryVectorStore_def allocate_def
      split: option.splits)

lemma settled_call: "settled env a m r \<Longrightarrow> call env a m = (r, m)"
  by (cases a)
    (simp_all add: settled_def getLlm_cases getEmbeddings_cases getVectorStore_cases
      split: option.splits)

lemma call_settles: "call env a m = (r, m') \<Longrightarrow> settled env a m' r"
  by (cases a)
    (auto simp: settled_def getLlm_cases getEmbeddings_cases getVectorStore_cases
      split: option.splits)

lemma call_preserves_settled:
  "settled env a m r \<Longrightarrow> call env b m = (rb, m') \<Longrightarrow> settled env a m' r"
  by (cases a; cases b)
    (auto simp: settled_def getLlm_cases getEmbeddings_cases getVectorStore_cases
      split: option.splits)

lemma run_calls_length: "run_calls env cs m = (rs, m') \<Longrightarrow> length rs = length cs"
  by (induction cs arbitrary: m rs) (auto split: prod.splits)

lemma run_calls_preserves_settled:
  "settled env a m r \<Longrightarrow> run_calls env cs m = (rs, m') \<Longrightarrow> settled env a m' r"
proof (induction cs arbitrary: m rs)
  case Nil
  then show ?case by simp
next
  case (Cons c cs)
  obtain rc m1 where c: "call env c m = (rc, m1)" by (cases "call env c m")
  obtain rs1 m2 where r: "run_calls env cs m1 = (rs1, m2)" by (cases "run_calls env cs m1")
  from Cons.prems(2) c r have r': "run_calls env cs m1 = (rs1, m')" by simp
  from call_preserves_settled [OF Cons.prems(1) c] have "settled env a m1 r" .
  from Cons.IH [OF this r'] show ?case .
qed

lemma run_calls_final_settled:
  "run_calls env cs m = (rs, m') \<Longrightarrow> i < length cs \<Longrightarrow> settled env (cs ! i) m' (rs ! i)"
proof (induction cs arbitrary: m rs i)
  case Nil
  then show ?case by simp
next
  case (Cons c cs)
  obtain rc m1 where c: "call env c m = (rc, m1)" by (cases "call env c m")
  obtain rs1 m2 where r: "run_calls env cs m1 = (rs1, m2)" by (cases "run_calls env cs m1")
  from Cons.prems(1) c r have eq: "rs = rc # rs1" and r': "run_calls env cs m1 = (rs1, m')"
    by simp_all
  show ?case
  proof (cases i)
    case 0
    from call_settles [OF c] have "settled env c m1 rc" .
    from run_calls_preserves_settled [OF this r'] 0 eq show ?thesis by simp
  next
    case (Suc j)
    with Cons.prems(2) have "j < length cs" by simp
    from Cons.IH [OF r' this] Suc eq show ?thesis by simp
  qed
qed

lemma settled_unique: "settled env a m r \<Longrightarrow> settled env a m r' \<Longrightarrow> r = r'"
  by (cases a) (auto simp: settled_def split: option.splits)

lemma singletons_initial: "singletons initial_module"
  by (simp add: singletons_def initial_module_def constructed_def)

lemma kinds_simps:
  "is_ChatAnthropic (ChatAnthropic mo t k)" "\<not> is_ChatAnthropic (CohereEmbeddings mo)"
  "\<not> is_ChatAnthropic (MemoryVectorStore e)"
  "\<not> is_CohereEmbeddings (ChatAnthropic mo t k)" "is_CohereEmbeddings (CohereEmbeddings mo)"
  "\<not> is_CohereEmbeddings (MemoryVectorStore e)"
  "\<not> is_MemoryVectorStore (ChatAnthropic mo t k)" "\<not> is_MemoryVectorStore (CohereEmbeddings mo)"
  "is_MemoryVectorStore (MemoryVectorStore e)"
  by (simp_all add: is_ChatAnthropic_def is_CohereEmbeddings_def is_MemoryVectorStore_def)

lemma singletons_getLlm: "singletons m \<Longrightarrow> singletons (snd (getLlm env m))"
  by (auto simp: singletons_def getLlm_cases constructed_def kinds_simps nth_append
      split: option.splits)

lemma singletons_getEmbeddings: "singletons m \<Longrightarrow> singletons (snd (getEmbeddings env m))"
  by (auto simp: singletons_def getEmbeddings_cases constructed_def kinds_simps nth_append
      split: option.splits)

lemma singletons_getVectorStore: "singletons m \<Longrightarrow> singletons (snd (getVectorStore env m))"
  by (auto simp: singletons_def getVectorStore_cases constructed_def kinds_simps nth_append
      split: option.splits)

lemma singletons_call: "singletons m \<Longrightarrow> call env a m = (r, m') \<Longrightarrow> singletons m'"
  using singletons_getLlm [of m env] singletons_getEmbeddings [of m env]
    singletons_getVectorStore [of m env]
  by (cases a) auto

lemma singletons_run_calls:
  "singletons m \<Longrightarrow> run_calls env cs m = (rs, m') \<Longrightarrow> singletons m'"
proof (induction cs arbitrary: m rs)
  case Nil
  then show ?case by simp
next
  case (Cons c cs)
  obtain rc m1 where c: "call env c m = (rc, m1)" by (cases "call env c m")
  obtain rs1 m2 where r: "run_calls env cs m1 = (rs1, m2)" by (cases "run_calls env cs m1")
  from Cons.prems(2) c r have r': "run_calls env cs m1 = (rs1, m')" by simp
  from singletons_call [OF Cons.prems(1) c] have "singletons m1" .
  from Cons.IH [OF this r'] show ?case .
qed

lemma singletons_at_most_one:
  assumes "singletons m"
  shows "constructed is_ChatAnthropic m \<le> 1" "constructed is_CohereEmbeddings m \<le> 1"
    "constructed is_MemoryVectorStore m \<le> 1"
  using assms by (auto simp: singletons_def split: option.splits)

lemma settled_object:
  assumes "singletons m" and "settled env a m (Inr x)"
  shows "x < length (heap m) \<and> kind_of a (heap m ! x)"
  using assms
  by (cases a) (auto simp: singletons_def settled_def kind_of_def kinds_simps split: option.splits)

lemma settled_vectorStore_embeddings:
  assumes "singletons m" and "settled env GetVectorStore m (Inr v)"
  shows "\<exists>e. heap m ! v = MemoryVectorStore e \<and> embeddings_var m = Some e \<and>
             is_CohereEmbeddings (heap m ! e) \<and> settled env GetEmbeddings m (Inr e)"
  using assms by (auto simp: singletons_def settled_def split: option.splits)

text \<open>
  Claim C10. The accessors \<^verbatim>\<open>getLlm\<close>, \<^verbatim>\<open>getEmbeddings\<close> and
  \<^verbatim>\<open>getVectorStore\<close> are lazy memoised singletons. After any sequence of calls
  from the freshly loaded module, at most one client of each kind has been
  constructed; any two calls of the same accessor returned the same result, and
  a further call would return it again without constructing anything; a
  returned reference is an object of the accessor's kind; and the vector store
  returned was constructed with the embeddings object that \<^verbatim>\<open>getEmbeddings\<close>
  returns.
\<close>

theorem accessors_are_singletons:
  "run_calls env calls initial_module = (rs, m) \<longrightarrow>
     length rs = length calls \<and>
     constructed is_ChatAnthropic m \<le> 1 \<and>
     constructed is_CohereEmbeddings m \<le> 1 \<and>
     constructed is_MemoryVectorStore m \<le> 1 \<and>
     (\<forall>i<length calls. \<forall>j<length calls. calls ! i = calls ! j \<longrightarrow> rs ! i = rs ! j) \<and>
     (\<forall>i<length calls. call env (calls ! i) m = (rs ! i, m)) \<and>
     (\<forall>i<length calls. \<forall>x. rs ! i = Inr x \<longrightarrow>
        x < length (heap m) \<and> kind_of (calls ! i) (heap m ! x)) \<and>
     (\<forall>i<length calls. \<forall>v. calls ! i = GetVectorStore \<and> rs ! i = Inr v \<longrightarrow>
        (\<exists>e. heap m ! v = MemoryVectorStore e \<and> embeddings_var m = Some e \<and>
             is_CohereEmbeddings (heap m ! e) \<and> getEmbeddings env m = (Inr e, m) \<and>
             (\<forall>j<length calls. calls ! j = GetEmbeddings \<longrightarrow> rs ! j = Inr e)))"
proof (intro impI)
  assume run: "run_calls env calls initial_module = (rs, m)"
  have inv: "singletons m" by (rule singletons_run_calls [OF singletons_initial run])
  have fin: "settled env (calls ! i) m (rs ! i)" if "i < length calls" for i
    using run that by (rule run_calls_final_settled)
  have same: "\<forall>i<length calls. \<forall>j<length calls. calls ! i = calls ! j \<longrightarrow> rs ! i = rs ! j"
  proof (intro allI impI)
    fix i j assume "i < length calls" "j < length calls" "calls ! i = calls ! j"
    with fin [of i] fin [of j] show "rs ! i = rs ! j" by (auto intro: settled_unique)
  qed
  have again: "\<forall>i<length calls. call env (calls ! i) m = (rs ! i, m)"
    using fin by (auto intro: settled_call)
  have obj: "\<forall>i<length calls. \<forall>x. rs ! i = Inr x \<longrightarrow>
        x < length (heap m) \<and> kind_of (calls ! i) (heap m ! x)"
  proof (intro allI impI)
    fix i x assume "i < length calls" "rs ! i = Inr x"
    with fin [of i] have "settled env (calls ! i) m (Inr x)" by simp
    from settled_object [OF inv this]
    show "x < length (heap m) \<and> kind_of (calls ! i) (heap m ! x)" .
  qed
  have vs: "\<forall>i<length calls. \<forall>v. calls ! i = GetVectorStore \<and> rs ! i = Inr v \<longrightarrow>
        (\<exists>e. heap m ! v = MemoryVectorStore e \<and> embeddings_var m = Some e \<and>
             is_CohereEmbeddings (heap m ! e) \<and> getEmbeddings env m = (Inr e, m) \<and>
             (\<forall>j<length calls. calls ! j = GetEmbeddings \<longrightarrow> rs ! j = Inr e))"
  proof (intro allI impI)
    fix i v assume i: "i < length calls" and "calls ! i = GetVectorStore \<and> rs ! i = Inr v"
    with fin [of i] have "settled env GetVectorStore m (Inr v)" by simp
    from settled_vectorStore_embeddings [OF inv this] obtain e where
      e: "heap m ! v = MemoryVectorStore e" "embeddings_var m = Some e"
         "is_CohereEmbeddings (heap m ! e)" "settled env GetEmbeddings m (Inr e)"
      by blast
    from settled_call [OF e(4)] have g: "getEmbeddings env m = (Inr e, m)" by simp
    have "\<forall>j<length calls. calls ! j = GetEmbeddings \<longrightarrow> rs ! j = Inr e"
    proof (intro allI impI)
      fix j assume "j < length calls" "calls ! j = GetEmbeddings"
      with fin [of j] have "settled env GetEmbeddings m (rs ! j)" by simp
      from settled_unique [OF this e(4)] show "rs ! j = Inr e" .
    qed
    with e g show "\<exists>e. heap m ! v = MemoryVectorStore e \<and> embeddings_var m = Some e \<and>
             is_CohereEmbeddings (heap m ! e) \<and> getEmbeddings env m = (Inr e, m) \<and>
             (\<forall>j<length calls. calls ! j = GetEmbeddings \<longrightarrow> rs ! j = Inr e)" by blast
  qed
  from run_calls_length [OF run] singletons_at_most_one [OF inv] same again obj vs
  show "length rs = length calls \<and>
     constructed is_ChatAnthropic m \<le> 1 \<and>
     constructed is_CohereEmbeddings m \<le> 1 \<and>
     constructed is_MemoryVectorStore m \<le> 1 \<and>
     (\<forall>i<length calls. \<forall>j<length calls. calls ! i = calls ! j \<longrightarrow> rs ! i = rs ! j) \<and>
     (\<forall>i<length calls. call env (calls ! i) m = (rs ! i, m)) \<and>
     (\<forall>i<length calls. \<forall>x. rs ! i = Inr x \<longrightarrow>
        x < length (heap m) \<and> kind_of (calls ! i) (heap m ! x)) \<and>
     (\<forall>i<length calls. \<forall>v. calls ! i = GetVectorStore \<and> rs ! i = Inr v \<longrightarrow>
        (\<exists>e. heap m ! v = MemoryVectorStore e \<and> embeddings_var m = Some e \<and>
             is_CohereEmbeddings (heap m ! e) \<and> getEmbeddings env m = (Inr e, m) \<and>
             (\<forall>j<length calls. calls ! j = GetEmbeddings \<longrightarrow> rs ! j = Inr e)))"
    by (intro conjI)
qed

lemma run_sample_calls:
  "run_calls sample_env sample_calls initial_module =
     ([Inr 1, Inr 2, Inr 0, Inr 1, Inr 2], sample_module)"
  by (simp add: sample_calls_def sample_env_def initial_module_def sample_module_def
      getLlm_cases getEmbeddings_cases getVectorStore_cases)

theorem accessors_are_singletons_witness:
  "run_calls sample_env sample_calls initial_module =
     ([Inr 1, Inr 2, Inr 0, Inr 1, Inr 2], sample_module) \<and>
   constructed is_ChatAnthropic sample_module \<le> 1 \<and>
   constructed is_CohereEmbeddings sample_module \<le> 1 \<and>
   constructed is_MemoryVectorStore sample_module \<le> 1 \<and>
   call sample_env GetVectorStore sample_module = (Inr 1, sample_module) \<and>
   heap sample_module ! 1 = MemoryVectorStore 0 \<and>
   getEmbeddings sample_env sample_module = (Inr 0, sample_module)"
proof -
  note t = accessors_are_singletons
    [of sample_env sample_calls "[Inr 1, Inr 2, Inr 0, Inr 1, Inr 2]" sample_module]
  from t run_sample_calls have
    c: "constructed is_ChatAnthropic sample_module \<le> 1 \<and>
        constructed is_CohereEmbeddings sample_module \<le> 1 \<and>
        constructed is_MemoryVectorStore sample_module \<le> 1" and
    a: "\<forall>i<length sample_calls. call sample_env (sample_calls ! i) sample_module =
          ([Inr 1, Inr 2, Inr 0, Inr 1, Inr 2] ! i, sample_module)"
    by blast+
  from a have 1: "call sample_env GetVectorStore sample_module = (Inr 1, sample_module)"
    by (auto simp: sample_calls_def dest: spec [of _ 0])
  have 2: "heap sample_module ! 1 = MemoryVectorStore 0"
    by (simp add: sample_module_def)
  have 3: "getEmbeddings sample_env sample_module = (Inr 0, sample_module)"
    by (simp add: getEmbeddings_cases sample_module_def)
  from run_sample_calls c 1 2 3 show ?thesis by blast
qed

section \<open>Properties of the command-line program\<close>

lemma workflow_first: "\<exists>rest. workflow w q = Call ''getLlm'' # rest"
  by (simp add: workflow_def)

lemma other_effect_simps:
  "other_effect (Call s)" "other_effect (ConsoleLog s)" "other_effect (ConsoleError s)"
  "other_effect (Uncaught e)" "other_effect (PrettyPrint m)"
  "\<not> other_effect (ProcessExit n)" "\<not> other_effect (AgentStream msgs)"
  by (simp_all add: other_effect_def)

lemma print_steps_other: "list_all other_effect (print_steps steps)"
  by (induction steps) (auto simp: print_steps_def other_effect_def split: list.splits)

lemma workflow_effects:
  "list_all (\<lambda>e. other_effect e \<or> e = AgentStream [HumanMessage q]) (workflow w q)"
proof -
  have p: "list_all (\<lambda>e. other_effect e \<or> e = AgentStream [HumanMessage q]) (print_steps steps)"
    for steps
    using print_steps_other [of steps] by (simp add: list_all_iff)
  show ?thesis
    by (simp add: workflow_def Let_def p other_effect_simps split: prod.splits sum.splits)
qed

lemma workflow_no_exit: "ProcessExit n \<notin> set (workflow w q)"
  using workflow_effects [of q w] by (auto simp: list_all_iff other_effect_simps)

lemma workflow_agent_input: "AgentStream msgs \<in> set (workflow w q) \<Longrightarrow> msgs = [HumanMessage q]"
  using workflow_effects [of q w] by (auto simp: list_all_iff other_effect_simps)

text \<open>
  Claim C7. Invoked with no positional argument, the program writes the error
  and the usage line to the error stream and exits with status 1; nothing else
  happens, in particular no step of the workflow. Invoked with at least one
  argument, it logs the query and runs the workflow on the first argument as it
  is: the process does not exit from the argument check, and the input given to
  the agent is the single user message whose text is that argument. The
  workflow always begins by asking for the chat client.
\<close>

theorem cli_argument_handling:
  "(length argv \<le> 2 \<longrightarrow>
      main w argv =
        [ConsoleError ''Error: Please provide a query as a command line argument.'',
         ConsoleError ''Usage: npx tsx pipeline.ts \"Your query here\"'',
         ProcessExit 1]) \<and>
   (2 < length argv \<longrightarrow>
      main w argv =
        ConsoleLog (''Processing query: \"'' @ argv ! 2 @ ''\"'') # workflow w (argv ! 2) \<and>
      (\<forall>n. ProcessExit n \<notin> set (main w argv)) \<and>
      (\<forall>msgs. AgentStream msgs \<in> set (main w argv) \<longrightarrow> msgs = [HumanMessage (argv ! 2)])) \<and>
   (\<forall>q. \<exists>rest. workflow w q = Call ''getLlm'' # rest)"
proof (intro conjI impI allI)
  assume "length argv \<le> 2"
  then show "main w argv =
        [ConsoleError ''Error: Please provide a query as a command line argument.'',
         ConsoleError ''Usage: npx tsx pipeline.ts \"Your query here\"'',
         ProcessExit 1]"
    by (simp add: main_def)
next
  assume a: "2 < length argv"
  then show m: "main w argv =
        ConsoleLog (''Processing query: \"'' @ argv ! 2 @ ''\"'') # workflow w (argv ! 2)"
    by (simp add: main_def Let_def)
  show "ProcessExit n \<notin> set (main w argv)" for n
    by (simp add: m workflow_no_exit)
  show "msgs = [HumanMessage (argv ! 2)]" if "AgentStream msgs \<in> set (main w argv)" for msgs
    using that by (simp add: m workflow_agent_input)
next
  show "\<exists>rest. workflow w q = Call ''getLlm'' # rest" for q
    by (rule workflow_first)
qed

lemma workflow_sample:
  "workflow sample_world q =
     [Call ''getLlm'', Call ''getVectorStore'', Call ''cheerioLoader.load'',
      Call ''splitter.splitDocuments'', Call ''vectorStore.addDocuments'',
      ConsoleLog (''Processing with agent...'' @ newline),
      AgentStream [HumanMessage q],
      PrettyPrint (HumanMessage q), ConsoleLog (''--------'' @ newline),
      PrettyPrint (AIMessage ''Hello!'' (Some [])), ConsoleLog (''--------'' @ newline)]"
  by (simp add: workflow_def sample_world_def sample_env_def initial_module_def
      getLlm_cases getVectorStore_cases addDocuments_def sample_provider_def print_steps_def)

theorem cli_argument_handling_witness:
  "length [''node'', ''pipeline.ts''] \<le> 2 \<and>
   main sample_world [''node'', ''pipeline.ts''] =
     [ConsoleError ''Error: Please provide a query as a command line argument.'',
      ConsoleError ''Usage: npx tsx pipeline.ts \"Your query here\"'',
      ProcessExit 1] \<and>
   2 < length [''node'', ''pipeline.ts'', ''What is Task Decomposition?''] \<and>
   main sample_world [''node'', ''pipeline.ts'', ''What is Task Decomposition?''] =
     ConsoleLog ''Processing query: \"What is Task Decomposition?\"'' #
     workflow sample_world ''What is Task Decomposition?'' \<and>
   AgentStream [HumanMessage ''What is Task Decomposition?'']
     \<in> set (main sample_world [''node'', ''pipeline.ts'', ''What is Task Decomposition?''])"
proof -
  have 1: "length [''node'', ''pipeline.ts''] \<le> 2" by simp
  from cli_argument_handling [of "[''node'', ''pipeline.ts'']" sample_world] 1
  have 2: "main sample_world [''node'', ''pipeline.ts''] =
     [ConsoleError ''Error: Please provide a query as a command line argument.'',
      ConsoleError ''Usage: npx tsx pipeline.ts \"Your query here\"'',
      ProcessExit 1]" by blast
  have 3: "2 < length [''node'', ''pipeline.ts'', ''What is Task Decomposition?'']" by simp
  from cli_argument_handling
    [of "[''node'', ''pipeline.ts'', ''What is Task Decomposition?'']" sample_world] 3
  have "main sample_world [''node'', ''pipeline.ts'', ''What is Task Decomposition?''] =
     ConsoleLog (''Processing query: \"'' @
        [''node'', ''pipeline.ts'', ''What is Task Decomposition?''] ! 2 @ ''\"'') #
     workflow sample_world ([''node'', ''pipeline.ts'', ''What is Task Decomposition?''] ! 2)"
    by blast
  then have 4: "main sample_world [''node'', ''pipeline.ts'', ''What is Task Decomposition?''] =
     ConsoleLog ''Processing query: \"What is Task Decomposition?\"'' #
     workflow sample_world ''What is Task Decomposition?''"
    by simp
  from 4 have 5: "AgentStream [HumanMessage ''What is Task Decomposition?'']
     \<in> set (main sample_world [''node'', ''pipeline.ts'', ''What is Task Decomposition?''])"
    by (simp only: workflow_sample) simp
  from 1 2 3 4 5 show ?thesis by blast
qed

end
